theory Spec2Isabelle
  imports Complex_Main
begin

section \<open>JavaScript values used by the synchronization engine\<close>

text \<open>
  Strings are \<^typ>\<open>string\<close>; a field that may be \<^verbatim>\<open>null\<close> or \<^verbatim>\<open>undefined\<close> is an
  \<^typ>\<open>string option\<close>. Characters are bytes here, so the case conversions below are the
  ASCII part of JavaScript's \<^verbatim>\<open>toUpperCase\<close>/\<^verbatim>\<open>toLowerCase\<close>. Numbers read by
  \<^verbatim>\<open>parseInt\<close> are natural numbers (the model does not round them to doubles), and
  probabilities are rationals. Wall-clock values (\<^verbatim>\<open>Date.now()\<close>, durations,
  \<^verbatim>\<open>sync_date\<close>) are left out of the records.
\<close>

definition truthy :: "string option \<Rightarrow> bool" where
  "truthy v = (case v of None \<Rightarrow> False | Some s \<Rightarrow> s \<noteq> [])"

definition lower_letters :: string where
  "lower_letters = ''abcdefghijklmnopqrstuvwxyz''"

definition upper_letters :: string where
  "upper_letters = ''ABCDEFGHIJKLMNOPQRSTUVWXYZ''"

definition toUpperChar :: "char \<Rightarrow> char" where
  "toUpperChar c = (case map_of (zip lower_letters upper_letters) c of Some u \<Rightarrow> u | None \<Rightarrow> c)"

definition toLowerChar :: "char \<Rightarrow> char" where
  "toLowerChar c = (case map_of (zip upper_letters lower_letters) c of Some l \<Rightarrow> l | None \<Rightarrow> c)"

definition toUpperCase :: "string \<Rightarrow> string" where
  "toUpperCase s = map toUpperChar s"

definition toLowerCase :: "string \<Rightarrow> string" where
  "toLowerCase s = map toLowerChar s"

text \<open>\<^verbatim>\<open>s.startsWith(p)\<close> and \<^verbatim>\<open>s.includes(p)\<close>.\<close>

fun startsWith :: "string \<Rightarrow> string \<Rightarrow> bool" where
  "startsWith s [] = True"
| "startsWith [] (p # ps) = False"
| "startsWith (c # cs) (p # ps) = (c = p \<and> startsWith cs ps)"

fun str_includes :: "string \<Rightarrow> string \<Rightarrow> bool" where
  "str_includes [] p = (p = [])"
| "str_includes (c # cs) p = (startsWith (c # cs) p \<or> str_includes cs p)"

text \<open>Decimal rendering of a number, as a template literal prints it.\<close>

definition digit_chars :: string where
  "digit_chars = ''0123456789''"

fun showNat :: "nat \<Rightarrow> string" where
  "showNat n = (if n < 10 then [digit_chars ! n] else showNat (n div 10) @ [digit_chars ! (n mod 10)])"

declare showNat.simps [simp del]

section \<open>Data model\<close>

text \<open>
  A row of the remote catalog's identity and status projection
  (\<^verbatim>\<open>SELECT kepoi_name, koi_disposition\<close>), and a full row extended with the fields the
  engine adds when it persists a record. \<open>physical\<close> holds the measured attributes by
  column name; the engine reads it only to build the classifier request.
\<close>

record kepoi_entry =
  kepoi_name :: "string option"
  koi_disposition :: "string option"

record ai_prediction_rec =
  ai_label :: "string option"
  ai_probability :: "rat option"
  ai_confidence_score :: rat
  ai_base_value :: "rat option"
  ai_contributions :: "rat list option"
  ai_feature_names :: "string list option"

record koi = kepoi_entry +
  kepler_name :: "string option"
  physical :: "(string \<times> rat) list"
  IS_AI :: bool
  explanation :: "string option"
  confidence_score :: "rat option"
  ai_prediction :: "ai_prediction_rec option"
  sync_source :: "string option"
  sync_version :: "string option"

text \<open>
  A thrown JavaScript error: \<^verbatim>\<open>error.code\<close>, \<^verbatim>\<open>error.message\<close> and, for an HTTP error
  answered by the server, \<^verbatim>\<open>error.response\<close> with its status and status text. Whatever
  this code and its HTTP client throw is an \<^verbatim>\<open>Error\<close> object, so the message is a string.
\<close>

record js_error =
  err_code :: "string option"
  err_message :: string
  err_response :: "(nat \<times> string) option"

definition Error :: "string \<Rightarrow> js_error" where
  "Error msg = \<lparr>err_code = None, err_message = msg, err_response = None\<rparr>"

section \<open>Dataset Differ\<close>

text \<open>
  The comparison made at the start of \<^verbatim>\<open>synchronizeKOIData\<close>. The set of stored
  identities is the one \<^verbatim>\<open>getExistingKepOINames\<close> builds (falsy names dropped); the
  filter keeps a remote entry when \<^verbatim>\<open>entry.kepoi_name && !existing.has(entry.kepoi_name)\<close>.
\<close>

definition storedNames :: "koi list \<Rightarrow> string set" where
  "storedNames store = set (map the (filter truthy (map kepoi_name store)))"

definition isNewEntry :: "string set \<Rightarrow> kepoi_entry \<Rightarrow> bool" where
  "isNewEntry existing entry =
     (truthy (kepoi_name entry) \<and> the (kepoi_name entry) \<notin> existing)"

definition newKepOIEntries :: "kepoi_entry list \<Rightarrow> string set \<Rightarrow> kepoi_entry list" where
  "newKepOIEntries nasaKepOINames existing = filter (isNewEntry existing) nasaKepOINames"

section \<open>Identifier Allocator\<close>

subsection \<open>Parsing identities and assigned names\<close>

text \<open>\<^verbatim>\<open>extractKOIBase\<close>: the part of the identity before the first dot.\<close>

definition extractKOIBase :: "string \<Rightarrow> string" where
  "extractKOIBase name = takeWhile (\<lambda>c. c \<noteq> CHR ''.'') name"

definition isDigit :: "char \<Rightarrow> bool" where
  "isDigit c = (c \<in> set digit_chars)"

definition isSpace :: "char \<Rightarrow> bool" where
  "isSpace c = (c \<in> set [CHR '' '', CHR 0x09, CHR 0x0A, CHR 0x0B, CHR 0x0C, CHR 0x0D, CHR 0xA0])"

definition isLetter :: "char \<Rightarrow> bool" where
  "isLetter c = (c \<in> set lower_letters \<or> c \<in> set upper_letters)"

definition digitVal :: "char \<Rightarrow> nat" where
  "digitVal c = (case map_of (zip digit_chars [0, 1, 2, 3, 4, 5, 6, 7, 8, 9]) c of
                   Some d \<Rightarrow> d | None \<Rightarrow> 0)"

definition parseInt :: "string \<Rightarrow> nat" where
  "parseInt ds = foldl (\<lambda>acc c. 10 * acc + digitVal c) 0 ds"

text \<open>
  The regular expression \<^verbatim>\<open>/Kepler-(\d+)/i\<close> tried at the head of the input: the captured
  digits and what follows them. \<^verbatim>\<open>\d+\<close> is greedy and nothing after it can take a
  digit, so the longest run of digits is the only match.
\<close>

definition keplerDigitsHere :: "string \<Rightarrow> (string \<times> string) option" where
  "keplerDigitsHere s =
     (if toLowerCase (take 7 s) = ''kepler-'' \<and> takeWhile isDigit (drop 7 s) \<noteq> []
      then Some (takeWhile isDigit (drop 7 s), dropWhile isDigit (drop 7 s))
      else None)"

text \<open>\<^verbatim>\<open>/Kepler-\d+\s+([a-z])/i\<close> tried at the head of the input: the captured letter.\<close>

definition keplerLetterHere :: "string \<Rightarrow> char option" where
  "keplerLetterHere s =
     (case keplerDigitsHere s of
        None \<Rightarrow> None
      | Some (ds, r) \<Rightarrow>
          (case dropWhile isSpace r of
             [] \<Rightarrow> None
           | l # _ \<Rightarrow> if takeWhile isSpace r \<noteq> [] \<and> isLetter l then Some l else None))"

text \<open>\<^verbatim>\<open>String.prototype.match\<close> without the \<^verbatim>\<open>g\<close> flag returns the leftmost match.\<close>

fun leftmost :: "(string \<Rightarrow> 'a option) \<Rightarrow> string \<Rightarrow> 'a option" where
  "leftmost m [] = m []"
| "leftmost m (c # cs) = (case m (c # cs) of Some r \<Rightarrow> Some r | None \<Rightarrow> leftmost m cs)"

definition extractKeplerNumber :: "string option \<Rightarrow> nat option" where
  "extractKeplerNumber name =
     (if \<not> truthy name then None
      else map_option (\<lambda>(ds, r). parseInt ds) (leftmost keplerDigitsHere (the name)))"

definition extractKeplerLetter :: "string option \<Rightarrow> char option" where
  "extractKeplerLetter name =
     (if \<not> truthy name then None
      else map_option toLowerChar (leftmost keplerLetterHere (the name)))"

text \<open>\<^verbatim>\<open>getNextAvailableLetter\<close>: the first of \<open>b\<close>, ..., \<open>z\<close> not in use, \<open>z\<close> when all are.\<close>

definition alphabet :: string where
  "alphabet = ''bcdefghijklmnopqrstuvwxyz''"

definition getNextAvailableLetter :: "char list \<Rightarrow> char" where
  "getNextAvailableLetter usedLetters =
     (case filter (\<lambda>letter. letter \<notin> set usedLetters) alphabet of
        [] \<Rightarrow> CHR ''z''
      | letter # _ \<Rightarrow> letter)"

section \<open>The outside world\<close>

text \<open>
  Everything a pass talks to is a field of one record: the two query shapes of the remote
  catalog (an HTTP answer with its status, status text and rows, or a thrown error), the
  classifier endpoint, and the faults of the database driver (\<open>None\<close>: the operation
  succeeds). The collection \<^verbatim>\<open>koi_objects\<close> itself is a list of records in insertion
  order, passed and returned explicitly.
\<close>

record 'a tap_response =
  tap_status :: nat
  tap_statusText :: string
  tap_data :: "'a list"

record infer_data =
  prediction :: "string option"
  probability :: "rat option"
  data_explanation :: "string option"
  base_value :: "rat option"
  contributions :: "rat list option"
  feature_names :: "string list option"

record infer_response =
  infer_status :: nat
  infer_body :: "infer_data option"

record infer_request =
  req_fields :: "(string \<times> rat) list"
  req_kepoi_name :: string
  req_timeout :: nat

record world =
  tap_names :: "js_error + kepoi_entry tap_response"
  tap_full :: "string \<Rightarrow> js_error + koi tap_response"
  infer_post :: "infer_request \<Rightarrow> js_error + infer_response"
  find_names_fault :: "js_error option"
  find_similar_fault :: "string \<Rightarrow> js_error option"
  find_last_fault :: "js_error option"
  insert_fault :: "koi \<Rightarrow> js_error option"
  log_fault :: "js_error option"

subsection \<open>Store queries of the allocator\<close>

text \<open>
  \<^verbatim>\<open>findSimilarKOIs\<close> asks for the records whose identity matches
  \<^verbatim>\<open>^<koiBase>\.\<close> without regard to case; for a base made of letters and digits (the
  form of every KOI identifier) that is a case-insensitive prefix test. A database error
  is caught there and gives the empty list.
\<close>

definition matchesBase :: "string \<Rightarrow> koi \<Rightarrow> bool" where
  "matchesBase koiBase k =
     (case kepoi_name k of
        None \<Rightarrow> False
      | Some n \<Rightarrow> startsWith (toLowerCase n) (toLowerCase (koiBase @ ''.'')))"

definition findSimilarKOIs :: "world \<Rightarrow> koi list \<Rightarrow> string \<Rightarrow> koi list" where
  "findSimilarKOIs w store koiBase =
     (case find_similar_fault w koiBase of
        Some e \<Rightarrow> []
      | None \<Rightarrow> filter (matchesBase koiBase) store)"

text \<open>
  \<^verbatim>\<open>findLastKeplerName\<close>: among the names matching \<^verbatim>\<open>/^Kepler-\d+/i\<close>, the first one
  carrying the largest number; \<open>None\<close> when there is no such name, when every number is
  zero, or when the database fails.
\<close>

definition hasKeplerPrefix :: "koi \<Rightarrow> bool" where
  "hasKeplerPrefix k =
     (case kepler_name k of None \<Rightarrow> False | Some n \<Rightarrow> keplerDigitsHere n \<noteq> None)"

definition lastStep :: "nat \<times> string option \<Rightarrow> koi \<Rightarrow> nat \<times> string option" where
  "lastStep acc result =
     (case extractKeplerNumber (kepler_name result) of
        None \<Rightarrow> acc
      | Some number \<Rightarrow>
          if number \<noteq> 0 \<and> number > fst acc then (number, kepler_name result) else acc)"

definition findLastKeplerName :: "world \<Rightarrow> koi list \<Rightarrow> string option" where
  "findLastKeplerName w store =
     (case find_last_fault w of
        Some e \<Rightarrow> None
      | None \<Rightarrow>
          (let results = filter hasKeplerPrefix store
           in if results = [] then None else snd (foldl lastStep (0, None) results)))"

subsection \<open>Grouping the found names\<close>

text \<open>
  \<^verbatim>\<open>keplerGroups\<close> is a JavaScript object from numbers to arrays of letters; here an
  association list in insertion order. \<^verbatim>\<open>Object.keys\<close> lists array-index keys (below
  \<open>2^32 - 1\<close>) in ascending order first, then the other keys in insertion order.
\<close>

type_synonym kepler_groups = "(nat \<times> char list) list"

definition pushLetter :: "nat \<Rightarrow> char \<Rightarrow> kepler_groups \<Rightarrow> kepler_groups" where
  "pushLetter number letter groups =
     map (\<lambda>(n, ls). if n = number then (n, ls @ [letter]) else (n, ls)) groups"

definition addToGroups :: "kepler_groups \<Rightarrow> koi \<Rightarrow> kepler_groups" where
  "addToGroups groups k =
     (if truthy (kepler_name k) then
        (case extractKeplerNumber (kepler_name k) of
           None \<Rightarrow> groups
         | Some number \<Rightarrow>
             if number = 0 then groups
             else
               (let groups1 = (if map_of groups number = None then groups @ [(number, [])]
                               else groups)
                in case extractKeplerLetter (kepler_name k) of
                     None \<Rightarrow> groups1
                   | Some letter \<Rightarrow> pushLetter number letter groups1))
      else groups)"

definition keplerGroups :: "koi list \<Rightarrow> kepler_groups" where
  "keplerGroups similarKOIs = foldl addToGroups [] similarKOIs"

definition isArrayIndex :: "nat \<Rightarrow> bool" where
  "isArrayIndex n = (n < 4294967295)"

definition objectKeys :: "kepler_groups \<Rightarrow> nat list" where
  "objectKeys groups =
     sort (filter isArrayIndex (map fst groups)) @
     filter (\<lambda>n. \<not> isArrayIndex n) (map fst groups)"

definition lettersOf :: "kepler_groups \<Rightarrow> nat \<Rightarrow> char list" where
  "lettersOf groups n = (case map_of groups n of Some ls \<Rightarrow> ls | None \<Rightarrow> [])"

text \<open>The callback of \<^verbatim>\<open>reduce\<close>: keep \<open>a\<close> only when its group is strictly larger.\<close>

definition morePopular :: "kepler_groups \<Rightarrow> nat \<Rightarrow> nat \<Rightarrow> nat" where
  "morePopular groups a b =
     (if length (lettersOf groups a) > length (lettersOf groups b) then a else b)"

subsection \<open>\<^verbatim>\<open>generateKeplerName\<close>\<close>

text \<open>
  Case A reuses the most populated group found among the similar records; case B opens a
  new system after the largest number in the store. The queries catch their own failures
  and the identity is a string, so the handler that falls back to a name built from the
  clock is never entered and has no branch here.
\<close>

definition keplerNameOf :: "nat \<Rightarrow> char \<Rightarrow> string" where
  "keplerNameOf number letter = ''Kepler-'' @ showNat number @ '' '' @ [letter]"

definition newSystemNumber :: "world \<Rightarrow> koi list \<Rightarrow> nat" where
  "newSystemNumber w store =
     (case findLastKeplerName w store of
        None \<Rightarrow> 1
      | Some lastKeplerName \<Rightarrow>
          (case extractKeplerNumber (Some lastKeplerName) of None \<Rightarrow> 0 | Some n \<Rightarrow> n) + 1)"

definition generateKeplerName :: "world \<Rightarrow> koi list \<Rightarrow> string \<Rightarrow> string" where
  "generateKeplerName w store name =
     (let koiBase = extractKOIBase name;
          similarKOIs = findSimilarKOIs w store koiBase;
          groups = keplerGroups similarKOIs
      in case (if similarKOIs \<noteq> [] then objectKeys groups else []) of
           k # ks \<Rightarrow>
             (let mostPopularNumber = foldl (morePopular groups) k ks;
                  usedLetters = lettersOf groups mostPopularNumber;
                  nextLetter = getNextAvailableLetter usedLetters
              in keplerNameOf mostPopularNumber nextLetter)
         | [] \<Rightarrow> keplerNameOf (newSystemNumber w store) (CHR ''b''))"

section \<open>Remote catalog queries and persistence\<close>

text \<open>
  \<^verbatim>\<open>fetchKepOINamesFromNASA\<close> wraps every failure, the non-200 answer included, in a new
  error; \<^verbatim>\<open>fetchCompleteKOIData\<close> rethrows what it caught and fails on an empty answer.
\<close>

definition statusError :: "nat \<Rightarrow> string \<Rightarrow> js_error" where
  "statusError st txt = Error (''NASA API returned status '' @ showNat st @ '': '' @ txt)"

definition fetchKepOINamesFromNASA :: "world \<Rightarrow> js_error + kepoi_entry list" where
  "fetchKepOINamesFromNASA w =
     (case tap_names w of
        Inl e \<Rightarrow> Inl (Error (''Could not retrieve NASA kepoi_names: '' @ err_message e))
      | Inr response \<Rightarrow>
          if tap_status response \<noteq> 200
          then Inl (Error (''Could not retrieve NASA kepoi_names: '' @
                 err_message (statusError (tap_status response) (tap_statusText response))))
          else Inr (tap_data response))"

definition fetchCompleteKOIData :: "world \<Rightarrow> string \<Rightarrow> js_error + koi" where
  "fetchCompleteKOIData w name =
     (case tap_full w name of
        Inl e \<Rightarrow> Inl e
      | Inr response \<Rightarrow>
          if tap_status response \<noteq> 200
          then Inl (statusError (tap_status response) (tap_statusText response))
          else (case tap_data response of
                  [] \<Rightarrow> Inl (Error (''No data found for '' @ name))
                | row # _ \<Rightarrow> Inr row))"

definition getExistingKepOINames :: "world \<Rightarrow> koi list \<Rightarrow> js_error + string set" where
  "getExistingKepOINames w store =
     (case find_names_fault w of Some e \<Rightarrow> Inl e | None \<Rightarrow> Inr (storedNames store))"

text \<open>\<^verbatim>\<open>saveKOIToMongoDB\<close>: stamp the record and insert it; an insertion error is rethrown.\<close>

definition enrich :: "koi \<Rightarrow> koi" where
  "enrich koiData = koiData\<lparr>sync_source := Some ''nasa_tap'', sync_version := Some ''1.0''\<rparr>"

definition saveKOIToMongoDB :: "world \<Rightarrow> koi list \<Rightarrow> koi \<Rightarrow> (js_error + unit) \<times> koi list" where
  "saveKOIToMongoDB w store koiData =
     (case insert_fault w (enrich koiData) of
        Some e \<Rightarrow> (Inl e, store)
      | None \<Rightarrow> (Inr (), store @ [enrich koiData]))"

section \<open>Classification Gateway\<close>

definition INFER_FIELDS :: "string list" where
  "INFER_FIELDS =
     [''koi_period'', ''koi_duration'', ''koi_depth'', ''koi_ror'', ''koi_prad'', ''koi_impact'',
      ''koi_teq'', ''koi_dor'',
      ''koi_steff'', ''koi_slogg'', ''koi_srad'', ''koi_smass'', ''koi_srho'',
      ''koi_kepmag'', ''koi_model_snr'', ''koi_num_transits'',
      ''koi_max_sngle_ev'', ''koi_max_mult_ev'']"

text \<open>The request: the listed fields the record has, the identity, and the 10000 ms timeout.\<close>

definition inferData :: "koi \<Rightarrow> string \<Rightarrow> infer_request" where
  "inferData fullKoiData name =
     \<lparr>req_fields = concat (map (\<lambda>field. case map_of (physical fullKoiData) field of
                                          None \<Rightarrow> [] | Some v \<Rightarrow> [(field, v)]) INFER_FIELDS),
      req_kepoi_name = name,
      req_timeout = 10000\<rparr>"

text \<open>The object the gateway returns.\<close>

record infer_result =
  success :: bool
  res_kepoi_name :: string
  res_kepler_name :: "string option"
  res_status :: "nat option"
  action :: "string option"
  res_prediction :: "string option"
  res_error :: "string option"
  res_data :: "infer_data option"

definition failure :: "string \<Rightarrow> nat option \<Rightarrow> string \<Rightarrow> string option \<Rightarrow> infer_result" where
  "failure name st msg pred =
     \<lparr>success = False, res_kepoi_name = name, res_kepler_name = None, res_status = st,
      action = None, res_prediction = pred, res_error = Some msg, res_data = None\<rparr>"

text \<open>
  The outer \<^verbatim>\<open>catch\<close> block: a timeout, an HTTP error answered by the server, or any other
  error. Each branch returns; none rethrows.
\<close>

definition catchInfer :: "string \<Rightarrow> js_error \<Rightarrow> js_error + infer_result" where
  "catchInfer name error =
     (if err_code error = Some ''ECONNABORTED'' \<or> str_includes (err_message error) ''timeout''
      then Inr (failure name None ''Timeout 10s exceeded'' None)
      else case err_response error of
             Some (st, txt) \<Rightarrow>
               Inr (failure name (Some st) (''HTTP '' @ showNat st @ '': '' @ txt) None)
           | None \<Rightarrow>
               Inr (failure name None (''Connection error: '' @ err_message error) None))"

text \<open>\<^verbatim>\<open>response.data.probability || 0\<close> and \<^verbatim>\<open>response.data.explanation || '...'\<close>.\<close>

definition probabilityOrZero :: "infer_data \<Rightarrow> rat" where
  "probabilityOrZero d = (case probability d of None \<Rightarrow> 0 | Some p \<Rightarrow> if p = 0 then 0 else p)"

definition explanationOr :: "infer_data \<Rightarrow> string \<Rightarrow> string" where
  "explanationOr d dflt = (if truthy (data_explanation d) then the (data_explanation d) else dflt)"

definition aiPrediction :: "infer_data \<Rightarrow> rat \<Rightarrow> ai_prediction_rec" where
  "aiPrediction d confidenceScore =
     \<lparr>ai_label = prediction d, ai_probability = probability d,
      ai_confidence_score = confidenceScore, ai_base_value = base_value d,
      ai_contributions = contributions d, ai_feature_names = feature_names d\<rparr>"

definition falsePositiveData :: "koi \<Rightarrow> infer_data \<Rightarrow> koi" where
  "falsePositiveData fullKoiData d =
     (let confidenceScore = 1 - probabilityOrZero d
      in fullKoiData\<lparr>koi_disposition := Some ''FALSE POSITIVE'',
                      IS_AI := True,
                      explanation := Some (explanationOr d ''Classified as false positive by AI''),
                      confidence_score := Some confidenceScore,
                      ai_prediction := Some (aiPrediction d confidenceScore)\<rparr>)"

definition confirmedData :: "koi \<Rightarrow> infer_data \<Rightarrow> string \<Rightarrow> koi" where
  "confirmedData fullKoiData d keplerName =
     (let confidenceScore = probabilityOrZero d
      in fullKoiData\<lparr>koi_disposition := Some ''CONFIRMED'',
                      kepler_name := Some keplerName,
                      IS_AI := True,
                      explanation := Some (explanationOr d ''Classified as confirmed by AI''),
                      confidence_score := Some confidenceScore,
                      ai_prediction := Some (aiPrediction d confidenceScore)\<rparr>)"

text \<open>
  The status-200 branch. \<open>pred\<close> is \<^verbatim>\<open>response.data?.prediction?.toUpperCase()\<close>; the two
  inner \<^verbatim>\<open>try\<close> blocks turn a failed save into a result with \<^verbatim>\<open>success: false\<close>.
\<close>

definition upperPrediction :: "infer_response \<Rightarrow> string option" where
  "upperPrediction response =
     (case infer_body response of
        None \<Rightarrow> None
      | Some d \<Rightarrow> map_option toUpperCase (prediction d))"

definition onPrediction ::
  "world \<Rightarrow> koi list \<Rightarrow> string \<Rightarrow> koi \<Rightarrow> infer_response \<Rightarrow> infer_result \<times> koi list" where
  "onPrediction w store name fullKoiData response =
     (let pred = upperPrediction response
      in if pred = Some ''FALSE POSITIVE'' then
           (case saveKOIToMongoDB w store (falsePositiveData fullKoiData (the (infer_body response))) of
              (Inl saveError, store') \<Rightarrow>
                (failure name (Some (infer_status response))
                   (''Save error: '' @ err_message saveError) pred, store')
            | (Inr u, store') \<Rightarrow>
                (\<lparr>success = True, res_kepoi_name = name, res_kepler_name = None,
                  res_status = Some (infer_status response),
                  action = Some ''saved_as_false_positive'', res_prediction = pred,
                  res_error = None, res_data = infer_body response\<rparr>, store'))
         else if pred = Some ''CONFIRMED'' then
           (let keplerName = generateKeplerName w store name
            in case saveKOIToMongoDB w store
                      (confirmedData fullKoiData (the (infer_body response)) keplerName) of
                 (Inl saveError, store') \<Rightarrow>
                   (failure name (Some (infer_status response))
                      (''Save error (CONFIRMED): '' @ err_message saveError) pred, store')
               | (Inr u, store') \<Rightarrow>
                   (\<lparr>success = True, res_kepoi_name = name, res_kepler_name = Some keplerName,
                     res_status = Some (infer_status response),
                     action = Some ''saved_as_confirmed'', res_prediction = pred,
                     res_error = None, res_data = infer_body response\<rparr>, store'))
         else
           (\<lparr>success = True, res_kepoi_name = name, res_kepler_name = None,
             res_status = Some (infer_status response),
             action = Some ''prediction_not_supported'', res_prediction = pred,
             res_error = None, res_data = infer_body response\<rparr>, store))"

text \<open>
  \<^verbatim>\<open>sendCandidateToInferAPI\<close>. The result type keeps a place for a thrown error (\<open>Inl\<close>);
  the second component of the pair counts the requests posted to the classifier.
\<close>

definition sendCandidateToInferAPI ::
  "world \<Rightarrow> koi list \<Rightarrow> string \<Rightarrow> ((js_error + infer_result) \<times> nat) \<times> koi list" where
  "sendCandidateToInferAPI w store name =
     (case fetchCompleteKOIData w name of
        Inl error \<Rightarrow> ((catchInfer name error, 0), store)
      | Inr fullKoiData \<Rightarrow>
          (case infer_post w (inferData fullKoiData name) of
             Inl error \<Rightarrow> ((catchInfer name error, 1), store)
           | Inr response \<Rightarrow>
               if infer_status response = 200 then
                 (case onPrediction w store name fullKoiData response of
                    (result, store') \<Rightarrow> ((Inr result, 1), store'))
               else
                 ((Inr (failure name (Some (infer_status response))
                          (''HTTP '' @ showNat (infer_status response) @ '' - non-200 response'')
                          None), 1), store)))"

text \<open>The outcome, as the orchestrator reads the returned object.\<close>

datatype outcome = Confirmed | FalsePositive | Other | Failed

definition outcomeOf :: "infer_result \<Rightarrow> outcome" where
  "outcomeOf r =
     (if success r then
        (if action r = Some ''saved_as_false_positive'' then FalsePositive
         else if action r = Some ''saved_as_confirmed'' then Confirmed
         else Other)
      else Failed)"

section \<open>Synchronization Orchestrator\<close>

text \<open>
  The statistics of a pass. In an error detail, \<open>ed_status\<close> is absent (\<open>None\<close>), the string
  \<^verbatim>\<open>'unknown'\<close> (\<open>Inl\<close>) or an HTTP status (\<open>Inr\<close>).
\<close>

record error_detail =
  ed_kepoi_name :: "string option"
  ed_type :: string
  ed_error :: "string option"
  ed_status :: "(string + nat) option"

record sync_stats =
  totalFromNASA :: nat
  newKOIs :: nat
  confirmed :: nat
  falsePositive :: nat
  candidates :: nat
  candidatesSent :: nat
  candidatesClassifiedByAI :: nat
  candidatesSavedAsFalsePositive :: nat
  candidatesSavedAsConfirmed :: nat
  candidatesOtherPrediction :: nat
  errors :: nat
  errorDetails :: "error_detail list"

definition initialStats :: sync_stats where
  "initialStats =
     \<lparr>totalFromNASA = 0, newKOIs = 0, confirmed = 0, falsePositive = 0, candidates = 0,
      candidatesSent = 0, candidatesClassifiedByAI = 0, candidatesSavedAsFalsePositive = 0,
      candidatesSavedAsConfirmed = 0, candidatesOtherPrediction = 0, errors = 0,
      errorDetails = []\<rparr>"

definition pushError :: "error_detail \<Rightarrow> sync_stats \<Rightarrow> sync_stats" where
  "pushError detail stats =
     stats\<lparr>errors := errors stats + 1, errorDetails := errorDetails stats @ [detail]\<rparr>"

text \<open>The \<^verbatim>\<open>catch\<close> of the loop body.\<close>

definition processingError :: "kepoi_entry \<Rightarrow> js_error \<Rightarrow> sync_stats \<Rightarrow> sync_stats" where
  "processingError entry error stats =
     pushError \<lparr>ed_kepoi_name = kepoi_name entry, ed_type = ''processing_error'',
                ed_error = Some (err_message error), ed_status = None\<rparr> stats"

text \<open>What the \<^verbatim>\<open>CANDIDATE\<close> case does with the object the gateway returned.\<close>

definition inferApiError :: "string \<Rightarrow> infer_result \<Rightarrow> error_detail" where
  "inferApiError name inferResult =
     \<lparr>ed_kepoi_name = Some name, ed_type = ''infer_api_error'',
      ed_error = res_error inferResult,
      ed_status = Some (case res_status inferResult of
                          None \<Rightarrow> Inl ''unknown''
                        | Some st \<Rightarrow> if st = 0 then Inl ''unknown'' else Inr st)\<rparr>"

definition countInferResult :: "string \<Rightarrow> infer_result \<Rightarrow> sync_stats \<Rightarrow> sync_stats" where
  "countInferResult name inferResult stats =
     (if success inferResult then
        (let stats1 = stats\<lparr>candidatesSent := candidatesSent stats + 1,
                             candidatesClassifiedByAI := candidatesClassifiedByAI stats + 1\<rparr>
         in if action inferResult = Some ''saved_as_false_positive'' then
              stats1\<lparr>candidatesSavedAsFalsePositive := candidatesSavedAsFalsePositive stats1 + 1,
                     falsePositive := falsePositive stats1 + 1\<rparr>
            else if action inferResult = Some ''saved_as_confirmed'' then
              stats1\<lparr>candidatesSavedAsConfirmed := candidatesSavedAsConfirmed stats1 + 1,
                     confirmed := confirmed stats1 + 1\<rparr>
            else if action inferResult = Some ''prediction_received''
                    \<or> action inferResult = Some ''prediction_not_supported'' then
              stats1\<lparr>candidatesOtherPrediction := candidatesOtherPrediction stats1 + 1\<rparr>
            else stats1)
      else pushError (inferApiError name inferResult) stats)"

text \<open>\<^verbatim>\<open>kepOIEntry.koi_disposition?.toUpperCase()\<close>.\<close>

definition dispositionOf :: "kepoi_entry \<Rightarrow> string option" where
  "dispositionOf kepOIEntry = map_option toUpperCase (koi_disposition kepOIEntry)"

text \<open>
  One iteration of the \<^verbatim>\<open>for\<close> loop over the new entries. Every entry the Differ lets
  through has a truthy name, so \<open>the\<close> reads a name that is there.
\<close>

definition processEntry :: "world \<Rightarrow> koi list \<times> sync_stats \<Rightarrow> kepoi_entry \<Rightarrow> koi list \<times> sync_stats" where
  "processEntry w acc kepOIEntry =
     (case acc of (store, stats) \<Rightarrow>
        (let disposition = dispositionOf kepOIEntry;
             name = the (kepoi_name kepOIEntry)
         in if disposition = Some ''CONFIRMED'' \<or> disposition = Some ''FALSE POSITIVE'' then
              (case fetchCompleteKOIData w name of
                 Inl error \<Rightarrow> (store, processingError kepOIEntry error stats)
               | Inr completeKOIData \<Rightarrow>
                   (case saveKOIToMongoDB w store completeKOIData of
                      (Inl error, store') \<Rightarrow> (store', processingError kepOIEntry error stats)
                    | (Inr u, store') \<Rightarrow>
                        (store', if disposition = Some ''CONFIRMED''
                                 then stats\<lparr>confirmed := confirmed stats + 1\<rparr>
                                 else stats\<lparr>falsePositive := falsePositive stats + 1\<rparr>)))
            else if disposition = Some ''CANDIDATE'' then
              (let stats1 = stats\<lparr>candidates := candidates stats + 1\<rparr>
               in case sendCandidateToInferAPI w store name of
                    ((Inl error, posts), store') \<Rightarrow> (store', processingError kepOIEntry error stats1)
                  | ((Inr inferResult, posts), store') \<Rightarrow>
                      (store', countInferResult name inferResult stats1))
            else
              (store, pushError \<lparr>ed_kepoi_name = Some name, ed_type = ''unknown_disposition'',
                                 ed_error = Some (''Unknown status: '' @
                                    (case disposition of None \<Rightarrow> ''undefined'' | Some d \<Rightarrow> d)),
                                 ed_status = None\<rparr> stats)))"

text \<open>
  \<^verbatim>\<open>synchronizeKOIData\<close>: the two fetches of the Differ, the filter, the loop. The result
  is the thrown error or the returned statistics, with the store as the pass left it.
\<close>

definition synchronizeKOIData :: "world \<Rightarrow> koi list \<Rightarrow> (js_error + sync_stats) \<times> koi list" where
  "synchronizeKOIData w store =
     (case fetchKepOINamesFromNASA w of
        Inl error \<Rightarrow> (Inl error, store)
      | Inr nasaKepOINames \<Rightarrow>
          (case getExistingKepOINames w store of
             Inl error \<Rightarrow> (Inl error, store)
           | Inr existingKepOINames \<Rightarrow>
               (let newEntries = newKepOIEntries nasaKepOINames existingKepOINames;
                    stats = initialStats\<lparr>totalFromNASA := length nasaKepOINames,
                                         newKOIs := length newEntries\<rparr>
                in if newEntries = [] then (Inr stats, store)
                   else (case foldl (processEntry w) (store, stats) newEntries of
                           (store', stats') \<Rightarrow> (Inr stats', store')))))"

section \<open>Scheduler\<close>

text \<open>
  The static fields of \<^verbatim>\<open>SchedulerService\<close> with the two collections. An \<^verbatim>\<open>async\<close> method
  runs without interruption up to its first \<^verbatim>\<open>await\<close>, so \<^verbatim>\<open>executeSyncTask\<close> is two
  atomic steps: the guard with the assignment \<^verbatim>\<open>isRunning = true\<close>, and, later, the pass
  with its logging and the \<^verbatim>\<open>finally\<close> block. \<open>passesInFlight\<close> is bookkeeping added by the
  model: the number of activations that have passed the guard and not yet reached
  \<^verbatim>\<open>finally\<close>.
\<close>

datatype sync_log = StatsLog sync_stats | ErrorLog string

record scheduler =
  isRunning :: bool
  koi_objects :: "koi list"
  sync_logs :: "sync_log list"
  passesInFlight :: nat

definition initialScheduler :: "koi list \<Rightarrow> sync_log list \<Rightarrow> scheduler" where
  "initialScheduler store logs =
     \<lparr>isRunning = False, koi_objects = store, sync_logs = logs, passesInFlight = 0\<rparr>"

text \<open>\<^verbatim>\<open>saveSyncStats\<close> swallows its own failure.\<close>

definition saveSyncStats :: "world \<Rightarrow> sync_log list \<Rightarrow> sync_log \<Rightarrow> sync_log list" where
  "saveSyncStats w logs entry = (case log_fault w of Some e \<Rightarrow> logs | None \<Rightarrow> logs @ [entry])"

definition executeSyncTask_begin :: "scheduler \<Rightarrow> bool \<times> scheduler" where
  "executeSyncTask_begin s =
     (if isRunning s then (False, s)
      else (True, s\<lparr>isRunning := True, passesInFlight := passesInFlight s + 1\<rparr>))"

definition executeSyncTask_end :: "world \<Rightarrow> scheduler \<Rightarrow> (js_error + sync_stats) \<times> scheduler" where
  "executeSyncTask_end w s =
     (case synchronizeKOIData w (koi_objects s) of
        (Inr stats, store') \<Rightarrow>
          (Inr stats,
           s\<lparr>koi_objects := store',
             sync_logs := saveSyncStats w (sync_logs s) (StatsLog stats),
             isRunning := False, passesInFlight := passesInFlight s - 1\<rparr>)
      | (Inl error, store') \<Rightarrow>
          (Inl error,
           s\<lparr>koi_objects := store',
             sync_logs := saveSyncStats w (sync_logs s) (ErrorLog (err_message error)),
             isRunning := False, passesInFlight := passesInFlight s - 1\<rparr>))"

text \<open>\<^verbatim>\<open>runSyncNow\<close> up to its \<^verbatim>\<open>await\<close>: the conflict error, or a pass begun.\<close>

definition runSyncNow :: "scheduler \<Rightarrow> (js_error + unit) \<times> scheduler" where
  "runSyncNow s =
     (if isRunning s then (Inl (Error ''A synchronization is already in progress''), s)
      else (Inr (), snd (executeSyncTask_begin s)))"

text \<open>
  What can happen to the scheduler: a manual trigger, a trigger of the periodic task, and
  the end of the pass in flight against some state of the outside world.
\<close>

datatype event = ManualTrigger | CronTrigger | PassEnds world

fun step :: "scheduler \<Rightarrow> event \<Rightarrow> scheduler" where
  "step s ManualTrigger = snd (runSyncNow s)"
| "step s CronTrigger = snd (executeSyncTask_begin s)"
| "step s (PassEnds w) = (if passesInFlight s = 0 then s else snd (executeSyncTask_end w s))"

definition run :: "scheduler \<Rightarrow> event list \<Rightarrow> scheduler" where
  "run s events = foldl step s events"

section \<open>Properties used to state the claims\<close>

text \<open>
  The Naming Group of the data model, read off the records a query found: the numeric
  label and the letter of a record's assigned name, the labels in use, the members of the
  group with a given label and the letters they use.
\<close>

definition labelOf :: "koi \<Rightarrow> nat option" where
  "labelOf k = extractKeplerNumber (kepler_name k)"









text \<open>The guard flag agrees with the number of passes in flight.\<close>

definition guardAgrees :: "scheduler \<Rightarrow> bool" where
  "guardAgrees s = (passesInFlight s = (if isRunning s then 1 else 0))"

text \<open>
  The status of a stored record is read the way the orchestrator reads a status, without
  regard to case. \<open>nameIffConfirmed\<close> is the store invariant of the data model for one
  record: an assigned name is present exactly for status Confirmed.
\<close>

definition isConfirmed :: "koi \<Rightarrow> bool" where
  "isConfirmed k = (map_option toUpperCase (koi_disposition k) = Some ''CONFIRMED'')"

definition nameIffConfirmed :: "koi \<Rightarrow> bool" where
  "nameIffConfirmed k = ((kepler_name k \<noteq> None) = isConfirmed k)"

text \<open>
  Assumptions on the remote catalog: the full-record query for an identity answers with a
  row of that identity (\<open>fetchConsistent\<close>); the rows of the listed entries carry the status
  the projection shows and satisfy the invariant themselves (\<open>rowsAgree\<close>).
\<close>

definition fetchConsistent :: "world \<Rightarrow> bool" where
  "fetchConsistent w = (\<forall>name full. fetchCompleteKOIData w name = Inr full \<longrightarrow> kepoi_name full = Some name)"

definition rowsAgree :: "world \<Rightarrow> kepoi_entry list \<Rightarrow> bool" where
  "rowsAgree w entries =
     (\<forall>e \<in> set entries. \<forall>full.
        fetchCompleteKOIData w (the (kepoi_name e)) = Inr full \<longrightarrow>
          map_option toUpperCase (koi_disposition full) = map_option toUpperCase (koi_disposition e)
          \<and> nameIffConfirmed full)"

definition worldAgrees :: "world \<Rightarrow> bool" where
  "worldAgrees w =
     (case fetchKepOINamesFromNASA w of Inl e \<Rightarrow> True | Inr entries \<Rightarrow> rowsAgree w entries)"

text \<open>A sequence of passes, each against its own state of the outside world.\<close>

definition runPasses :: "koi list \<Rightarrow> world list \<Rightarrow> koi list" where
  "runPasses store ws = foldl (\<lambda>st w. snd (synchronizeKOIData w st)) store ws"



section \<open>Example inputs\<close>

text \<open>Concrete rows, answers and worlds on which the theorems below are instantiated.\<close>

definition entry :: "string \<Rightarrow> string \<Rightarrow> kepoi_entry" where
  "entry name disposition = \<lparr>kepoi_name = Some name, koi_disposition = Some disposition\<rparr>"

definition row :: "string \<Rightarrow> string \<Rightarrow> string option \<Rightarrow> koi" where
  "row name disposition keplerName =
     \<lparr>kepoi_name = Some name, koi_disposition = Some disposition, kepler_name = keplerName,
      physical = [(''koi_period'', 9), (''koi_prad'', 2)], IS_AI = False, explanation = None,
      confidence_score = None, ai_prediction = None, sync_source = None, sync_version = None\<rparr>"

definition ok200 :: "'a list \<Rightarrow> js_error + 'a tap_response" where
  "ok200 rows = Inr \<lparr>tap_status = 200, tap_statusText = ''OK'', tap_data = rows\<rparr>"

definition verdictData :: "string \<Rightarrow> rat option \<Rightarrow> infer_data" where
  "verdictData label p =
     \<lparr>prediction = Some label, probability = p, data_explanation = None,
      base_value = None, contributions = None, feature_names = None\<rparr>"

definition verdict :: "string \<Rightarrow> rat option \<Rightarrow> js_error + infer_response" where
  "verdict label p = Inr \<lparr>infer_status = 200, infer_body = Some (verdictData label p)\<rparr>"

definition timeoutError :: js_error where
  "timeoutError = \<lparr>err_code = Some ''ECONNABORTED'', err_message = ''timeout of 10000ms exceeded'',
                   err_response = None\<rparr>"

definition serverError :: js_error where
  "serverError = \<lparr>err_code = Some ''ERR_BAD_RESPONSE'',
                  err_message = ''Request failed with status code 500'',
                  err_response = Some (500, ''Internal Server Error'')\<rparr>"

text \<open>A world without database faults: the projection, the full rows by identity, and the
  classifier's answer by identity.\<close>

definition exampleWorld ::
  "kepoi_entry list \<Rightarrow> (string \<Rightarrow> js_error + koi tap_response) \<Rightarrow>
   (string \<Rightarrow> js_error + infer_response) \<Rightarrow> world" where
  "exampleWorld entries full classifier =
     \<lparr>tap_names = ok200 entries, tap_full = full,
      infer_post = (\<lambda>request. classifier (req_kepoi_name request)),
      find_names_fault = None, find_similar_fault = (\<lambda>koiBase. None), find_last_fault = None,
      insert_fault = (\<lambda>k. None), log_fault = None\<rparr>"

definition candidateRows :: "string \<Rightarrow> js_error + koi tap_response" where
  "candidateRows name = ok200 [row name ''CANDIDATE'' None]"

definition worldFalsePositive :: world where
  "worldFalsePositive =
     exampleWorld [entry ''K00752.01'' ''CANDIDATE''] candidateRows
       (\<lambda>name. verdict ''False Positive'' (Some (1 / 4)))"


definition worldFalsePositiveNoProbability :: world where
  "worldFalsePositiveNoProbability =
     exampleWorld [entry ''K00752.01'' ''CANDIDATE''] candidateRows
       (\<lambda>name. verdict ''FALSE POSITIVE'' None)"

definition worldConfirmedNoProbability :: world where
  "worldConfirmedNoProbability =
     exampleWorld [entry ''K00752.01'' ''CANDIDATE''] candidateRows
       (\<lambda>name. verdict ''CONFIRMED'' None)"

definition worldTimeout :: world where
  "worldTimeout =
     exampleWorld [entry ''K00003.01'' ''CANDIDATE''] candidateRows (\<lambda>name. Inl timeoutError)"

definition worldServerError :: world where
  "worldServerError =
     exampleWorld [entry ''K00003.01'' ''CANDIDATE''] candidateRows (\<lambda>name. Inl serverError)"

text \<open>The remote catalog is unreachable: the Differ's first fetch fails.\<close>

definition worldDown :: world where
  "worldDown = (exampleWorld [] candidateRows (\<lambda>name. Inl timeoutError))
                 \<lparr>tap_names := Inl timeoutError\<rparr>"

text \<open>
  A candidate the classifier confirms, listed before a record the catalog itself confirms
  under the name \<^verbatim>\<open>Kepler-1 b\<close>.
\<close>

definition duplicateRows :: "string \<Rightarrow> js_error + koi tap_response" where
  "duplicateRows name =
     (if name = ''K00002.01'' then ok200 [row name ''CONFIRMED'' (Some ''Kepler-1 b'')]
      else ok200 [row name ''CANDIDATE'' None])"

definition worldDuplicateName :: world where
  "worldDuplicateName =
     exampleWorld [entry ''K00001.01'' ''CANDIDATE'', entry ''K00002.01'' ''CONFIRMED'']
       duplicateRows (\<lambda>name. verdict ''CONFIRMED'' (Some (91 / 100)))"

text \<open>Two records the catalog confirms; the full-record fetch of the first one fails.\<close>

definition brokenRows :: "string \<Rightarrow> js_error + koi tap_response" where
  "brokenRows name =
     (if name = ''K00001.01'' then Inl serverError
      else ok200 [row name ''CONFIRMED'' (Some ''Kepler-2 b'')])"

definition worldBrokenFetch :: world where
  "worldBrokenFetch =
     exampleWorld [entry ''K00001.01'' ''CONFIRMED'', entry ''K00002.01'' ''CONFIRMED'']
       brokenRows (\<lambda>name. Inl timeoutError)"

text \<open>
  A candidate whose classification times out, followed by a record the catalog confirms.
\<close>

definition mixedRows :: "string \<Rightarrow> js_error + koi tap_response" where
  "mixedRows name =
     (if name = ''K00004.01'' then ok200 [row name ''CONFIRMED'' (Some ''Kepler-4 b'')]
      else ok200 [row name ''CANDIDATE'' None])"

definition worldOneFails :: world where
  "worldOneFails =
     exampleWorld [entry ''K00003.01'' ''CANDIDATE'', entry ''K00004.01'' ''CONFIRMED'']
       mixedRows (\<lambda>name. Inl timeoutError)"

text \<open>The statistics of a pass in which one of two records could not be fetched.\<close>

definition brokenFetchStats :: sync_stats where
  "brokenFetchStats =
     initialStats\<lparr>totalFromNASA := 2, newKOIs := 2, confirmed := 1, errors := 1,
       errorDetails := [\<lparr>ed_kepoi_name = Some ''K00001.01'', ed_type = ''processing_error'',
                          ed_error = Some ''Request failed with status code 500'',
                          ed_status = None\<rparr>]\<rparr>"

text \<open>The catalog confirms a record for which it gives no name.\<close>

definition unnamedRows :: "string \<Rightarrow> js_error + koi tap_response" where
  "unnamedRows name = ok200 [row name ''CONFIRMED'' None]"

definition worldUnnamedConfirmed :: world where
  "worldUnnamedConfirmed =
     exampleWorld [entry ''K00005.01'' ''CONFIRMED''] unnamedRows (\<lambda>name. Inl timeoutError)"

section \<open>Rules for evaluating the model on concrete inputs\<close>

lemmas string_defs = truthy_def toUpperCase_def toUpperChar_def toLowerCase_def toLowerChar_def
  lower_letters_def upper_letters_def digit_chars_def

lemmas example_defs = entry_def row_def ok200_def verdict_def exampleWorld_def candidateRows_def

lemmas pass_defs = synchronizeKOIData_def fetchKepOINamesFromNASA_def getExistingKepOINames_def
  newKepOIEntries_def isNewEntry_def storedNames_def processEntry_def dispositionOf_def
  fetchCompleteKOIData_def saveKOIToMongoDB_def enrich_def sendCandidateToInferAPI_def
  inferData_def onPrediction_def upperPrediction_def falsePositiveData_def confirmedData_def
  probabilityOrZero_def explanationOr_def aiPrediction_def countInferResult_def
  inferApiError_def processingError_def pushError_def initialStats_def catchInfer_def
  failure_def statusError_def Error_def Let_def

lemmas allocator_defs = generateKeplerName_def extractKOIBase_def findSimilarKOIs_def
  matchesBase_def keplerGroups_def addToGroups_def pushLetter_def objectKeys_def isArrayIndex_def
  lettersOf_def morePopular_def keplerNameOf_def newSystemNumber_def findLastKeplerName_def
  hasKeplerPrefix_def lastStep_def getNextAvailableLetter_def alphabet_def
  extractKeplerNumber_def extractKeplerLetter_def keplerLetterHere_def keplerDigitsHere_def
  isSpace_def isLetter_def isDigit_def parseInt_def digitVal_def showNat.simps

lemma upper_literals:
  "toUpperCase ''CONFIRMED'' = ''CONFIRMED''"
  "toUpperCase ''FALSE POSITIVE'' = ''FALSE POSITIVE''"
  by (simp_all add: string_defs)

section \<open>Facts about the gateway\<close>

lemma catchInfer_returns:
  "\<exists>r. catchInfer name e = Inr r \<and> \<not> success r \<and> res_error r \<noteq> None"
  by (auto simp: catchInfer_def failure_def split: option.splits)

lemma saveKOIToMongoDB_ok:
  "insert_fault w (enrich k) = None \<Longrightarrow> saveKOIToMongoDB w store k = (Inr (), store @ [enrich k])"
  by (simp add: saveKOIToMongoDB_def)

lemma send_200:
  assumes "fetchCompleteKOIData w name = Inr full"
    and "infer_post w (inferData full name) = Inr response"
    and "infer_status response = 200"
  shows "sendCandidateToInferAPI w store name =
           ((Inr (fst (onPrediction w store name full response)), 1),
            snd (onPrediction w store name full response))"
  using assms by (simp add: sendCandidateToInferAPI_def split: prod.splits)

lemma onPrediction_false_positive:
  assumes "infer_body response = Some d"
    and "upperPrediction response = Some ''FALSE POSITIVE''"
    and "insert_fault w (enrich (falsePositiveData full d)) = None"
  shows "onPrediction w store name full response =
           (\<lparr>success = True, res_kepoi_name = name, res_kepler_name = None,
             res_status = Some (infer_status response),
             action = Some ''saved_as_false_positive'', res_prediction = Some ''FALSE POSITIVE'',
             res_error = None, res_data = Some d\<rparr>,
            store @ [enrich (falsePositiveData full d)])"
  using assms by (simp add: onPrediction_def saveKOIToMongoDB_ok)

lemma onPrediction_confirmed:
  assumes "infer_body response = Some d"
    and "upperPrediction response = Some ''CONFIRMED''"
    and "insert_fault w (enrich (confirmedData full d (generateKeplerName w store name))) = None"
  shows "onPrediction w store name full response =
           (\<lparr>success = True, res_kepoi_name = name,
             res_kepler_name = Some (generateKeplerName w store name),
             res_status = Some (infer_status response),
             action = Some ''saved_as_confirmed'', res_prediction = Some ''CONFIRMED'',
             res_error = None, res_data = Some d\<rparr>,
            store @ [enrich (confirmedData full d (generateKeplerName w store name))])"
  using assms by (simp add: onPrediction_def saveKOIToMongoDB_ok Let_def)

lemma send_returns:
  "\<exists>r posts store'. sendCandidateToInferAPI w store name = ((Inr r, posts), store') \<and> posts \<le> 1"
proof (cases "fetchCompleteKOIData w name")
  case (Inl e)
  then show ?thesis
    using catchInfer_returns [of name e] by (auto simp: sendCandidateToInferAPI_def)
next
  case (Inr full)
  show ?thesis
  proof (cases "infer_post w (inferData full name)")
    case (Inl e)
    then show ?thesis
      using Inr catchInfer_returns [of name e] by (auto simp: sendCandidateToInferAPI_def)
  next
    case post: (Inr response)
    then show ?thesis
      using Inr by (auto simp: sendCandidateToInferAPI_def split: prod.splits)
  qed
qed

lemma upperPrediction_verdict:
  "upperPrediction \<lparr>infer_status = st, infer_body = Some (verdictData label p)\<rparr> = Some (toUpperCase label)"
  by (simp add: upperPrediction_def verdictData_def)

lemma gateway_verdict_records:
  assumes "fetchCompleteKOIData w name = Inr full"
    and "infer_post w (inferData full name) = Inr response"
    and "infer_status response = 200"
    and "infer_body response = Some d"
    and "\<forall>k. insert_fault w k = None"
  shows "(upperPrediction response = Some ''FALSE POSITIVE'' \<longrightarrow>
            (\<exists>r rec. sendCandidateToInferAPI w store name = ((Inr r, 1), store @ [rec]) \<and>
               outcomeOf r = FalsePositive \<and>
               koi_disposition rec = Some ''FALSE POSITIVE'' \<and>
               confidence_score rec = Some (1 - probabilityOrZero d) \<and>
               IS_AI rec \<and>
               ai_prediction rec = Some (aiPrediction d (1 - probabilityOrZero d)))) \<and>
         (upperPrediction response = Some ''CONFIRMED'' \<longrightarrow>
            (\<exists>r rec. sendCandidateToInferAPI w store name = ((Inr r, 1), store @ [rec]) \<and>
               outcomeOf r = Confirmed \<and>
               koi_disposition rec = Some ''CONFIRMED'' \<and>
               confidence_score rec = Some (probabilityOrZero d) \<and>
               IS_AI rec \<and>
               ai_prediction rec = Some (aiPrediction d (probabilityOrZero d))))"
proof -
  have sent: "sendCandidateToInferAPI w store name =
           ((Inr (fst (onPrediction w store name full response)), 1),
            snd (onPrediction w store name full response))"
    using assms(1-3) by (rule send_200)
  have fp: "upperPrediction response = Some ''FALSE POSITIVE'' \<Longrightarrow> ?thesis"
    using assms(4,5) sent
    by (simp add: onPrediction_false_positive outcomeOf_def enrich_def falsePositiveData_def Let_def)
  have cf: "upperPrediction response = Some ''CONFIRMED'' \<Longrightarrow> ?thesis"
    using assms(4,5) sent
    by (simp add: onPrediction_confirmed outcomeOf_def enrich_def confirmedData_def Let_def)
  show ?thesis using fp cf by fastforce
qed

lemma catchInfer_eq:
  "catchInfer name e =
     Inr (failure name
            (if err_code e = Some ''ECONNABORTED'' \<or> str_includes (err_message e) ''timeout''
             then None else map_option fst (err_response e))
            (if err_code e = Some ''ECONNABORTED'' \<or> str_includes (err_message e) ''timeout''
             then ''Timeout 10s exceeded''
             else case err_response e of
                    Some (st, txt) \<Rightarrow> ''HTTP '' @ showNat st @ '': '' @ txt
                  | None \<Rightarrow> ''Connection error: '' @ err_message e)
            None)"
  by (simp add: catchInfer_def split: option.splits)

section \<open>Facts about the orchestrator\<close>

text \<open>What a call of the gateway and one iteration of the loop can do to the store and to
  the statistics.\<close>

lemma onPrediction_cases:
  assumes "onPrediction w store name full response = (r, store')"
  shows "(\<not> success r \<and> store' = store \<and> res_error r \<noteq> None) \<or>
         (success r \<and> action r = Some ''saved_as_false_positive'' \<and>
            (\<exists>d. store' = store @ [enrich (falsePositiveData full d)])) \<or>
         (success r \<and> action r = Some ''saved_as_confirmed'' \<and>
            (\<exists>d. store' = store @ [enrich (confirmedData full d (generateKeplerName w store name))])) \<or>
         (success r \<and> action r = Some ''prediction_not_supported'' \<and> store' = store)"
  using assms
  by (auto simp: onPrediction_def saveKOIToMongoDB_def Let_def failure_def
           split: if_splits option.splits)

lemma send_cases:
  assumes "sendCandidateToInferAPI w store name = (res, store')"
  shows "\<exists>r posts. res = (Inr r, posts) \<and>
          ((\<not> success r \<and> store' = store \<and> res_error r \<noteq> None) \<or>
           (success r \<and> action r = Some ''saved_as_false_positive'' \<and>
              (\<exists>full d. fetchCompleteKOIData w name = Inr full \<and>
                        store' = store @ [enrich (falsePositiveData full d)])) \<or>
           (success r \<and> action r = Some ''saved_as_confirmed'' \<and>
              (\<exists>full d. fetchCompleteKOIData w name = Inr full \<and>
                 store' = store @ [enrich (confirmedData full d (generateKeplerName w store name))])) \<or>
           (success r \<and> action r = Some ''prediction_not_supported'' \<and> store' = store))"
proof (cases "fetchCompleteKOIData w name")
  case (Inl e)
  then show ?thesis
    using assms by (auto simp: sendCandidateToInferAPI_def catchInfer_eq failure_def)
next
  case (Inr full)
  show ?thesis
  proof (cases "infer_post w (inferData full name)")
    case (Inl e)
    then show ?thesis
      using assms Inr by (auto simp: sendCandidateToInferAPI_def catchInfer_eq failure_def)
  next
    case post: (Inr response)
    show ?thesis
    proof (cases "infer_status response = 200")
      case False
      then show ?thesis
        using assms Inr post by (auto simp: sendCandidateToInferAPI_def failure_def)
    next
      case True
      obtain r st where on: "onPrediction w store name full response = (r, st)"
        by (cases "onPrediction w store name full response")
      then have "res = (Inr r, 1)" and "store' = st"
        using assms Inr post True by (auto simp: sendCandidateToInferAPI_def)
      then show ?thesis
        using onPrediction_cases [OF on] Inr by auto
    qed
  qed
qed

lemma processEntry_decided:
  assumes "dispositionOf e = Some ''CONFIRMED'' \<or> dispositionOf e = Some ''FALSE POSITIVE''"
  shows "processEntry w (store, stats) e =
          (case fetchCompleteKOIData w (the (kepoi_name e)) of
             Inl error \<Rightarrow> (store, processingError e error stats)
           | Inr completeKOIData \<Rightarrow>
               (case insert_fault w (enrich completeKOIData) of
                  Some error \<Rightarrow> (store, processingError e error stats)
                | None \<Rightarrow>
                    (store @ [enrich completeKOIData],
                     if dispositionOf e = Some ''CONFIRMED''
                     then stats\<lparr>confirmed := confirmed stats + 1\<rparr>
                     else stats\<lparr>falsePositive := falsePositive stats + 1\<rparr>)))"
  using assms unfolding processEntry_def Let_def saveKOIToMongoDB_def
  by (simp split: sum.splits option.splits)

lemma processEntry_candidate:
  assumes "dispositionOf e = Some ''CANDIDATE''"
    and "sendCandidateToInferAPI w store (the (kepoi_name e)) = ((Inr r, posts), st)"
  shows "processEntry w (store, stats) e =
           (st, countInferResult (the (kepoi_name e)) r (stats\<lparr>candidates := candidates stats + 1\<rparr>))"
  using assms unfolding processEntry_def Let_def
  by simp

lemma processEntry_unknown:
  assumes "dispositionOf e \<noteq> Some ''CONFIRMED''" "dispositionOf e \<noteq> Some ''FALSE POSITIVE''"
    "dispositionOf e \<noteq> Some ''CANDIDATE''"
  shows "processEntry w (store, stats) e =
           (store, pushError \<lparr>ed_kepoi_name = Some (the (kepoi_name e)),
                              ed_type = ''unknown_disposition'',
                              ed_error = Some (''Unknown status: '' @
                                 (case dispositionOf e of None \<Rightarrow> ''undefined'' | Some d \<Rightarrow> d)),
                              ed_status = None\<rparr> stats)"
  using assms unfolding processEntry_def Let_def
  by simp

lemma processEntry_cases:
  assumes "processEntry w (store, stats) e = (store', stats')" and "kepoi_name e = Some n"
  shows "(store' = store \<and> errors stats' = errors stats + 1 \<and>
            candidatesOtherPrediction stats' = candidatesOtherPrediction stats \<and>
            (\<exists>d. errorDetails stats' = errorDetails stats @ [d] \<and> ed_kepoi_name d = Some n)) \<or>
         ((dispositionOf e = Some ''CONFIRMED'' \<or> dispositionOf e = Some ''FALSE POSITIVE'') \<and>
            errors stats' = errors stats \<and> errorDetails stats' = errorDetails stats \<and>
            candidatesOtherPrediction stats' = candidatesOtherPrediction stats \<and>
            (\<exists>full. fetchCompleteKOIData w n = Inr full \<and> store' = store @ [enrich full])) \<or>
         (dispositionOf e = Some ''CANDIDATE'' \<and>
            errors stats' = errors stats \<and> errorDetails stats' = errorDetails stats \<and>
            candidatesOtherPrediction stats' = candidatesOtherPrediction stats \<and>
            (\<exists>full d. fetchCompleteKOIData w n = Inr full \<and>
               store' = store @ [enrich (falsePositiveData full d)])) \<or>
         (dispositionOf e = Some ''CANDIDATE'' \<and>
            errors stats' = errors stats \<and> errorDetails stats' = errorDetails stats \<and>
            candidatesOtherPrediction stats' = candidatesOtherPrediction stats \<and>
            (\<exists>full d. fetchCompleteKOIData w n = Inr full \<and>
               store' = store @ [enrich (confirmedData full d (generateKeplerName w store n))])) \<or>
         (dispositionOf e = Some ''CANDIDATE'' \<and> store' = store \<and>
            errors stats' = errors stats \<and> errorDetails stats' = errorDetails stats \<and>
            candidatesOtherPrediction stats' = candidatesOtherPrediction stats + 1)"
proof -
  consider (decided) "dispositionOf e = Some ''CONFIRMED'' \<or> dispositionOf e = Some ''FALSE POSITIVE''"
    | (candidate) "dispositionOf e = Some ''CANDIDATE''"
    | (unknown) "dispositionOf e \<noteq> Some ''CONFIRMED''" "dispositionOf e \<noteq> Some ''FALSE POSITIVE''"
        "dispositionOf e \<noteq> Some ''CANDIDATE''"
    by blast
  then show ?thesis
  proof cases
    case decided
    show ?thesis
    proof (cases "fetchCompleteKOIData w n")
      case (Inl err)
      then have "store' = store" "stats' = processingError e err stats"
        using assms processEntry_decided [OF decided, of w store stats] by simp_all
      then show ?thesis
        using assms(2) by (simp add: processingError_def pushError_def)
    next
      case (Inr full)
      show ?thesis
      proof (cases "insert_fault w (enrich full)")
        case (Some err)
        then have "store' = store" "stats' = processingError e err stats"
          using assms Inr processEntry_decided [OF decided, of w store stats] by simp_all
        then show ?thesis
          using assms(2) by (simp add: processingError_def pushError_def)
      next
        case None
        then have "store' = store @ [enrich full]"
          "errors stats' = errors stats \<and> errorDetails stats' = errorDetails stats \<and>
            candidatesOtherPrediction stats' = candidatesOtherPrediction stats"
          using assms Inr processEntry_decided [OF decided, of w store stats] by auto
        then show ?thesis
          using decided Inr by blast
      qed
    qed
  next
    case candidate
    obtain res st where snd: "sendCandidateToInferAPI w store n = (res, st)"
      by (cases "sendCandidateToInferAPI w store n")
    from send_cases [OF snd] obtain r posts where res: "res = (Inr r, posts)"
      and cs: "(\<not> success r \<and> st = store \<and> res_error r \<noteq> None) \<or>
           (success r \<and> action r = Some ''saved_as_false_positive'' \<and>
              (\<exists>full d. fetchCompleteKOIData w n = Inr full \<and>
                        st = store @ [enrich (falsePositiveData full d)])) \<or>
           (success r \<and> action r = Some ''saved_as_confirmed'' \<and>
              (\<exists>full d. fetchCompleteKOIData w n = Inr full \<and>
                 st = store @ [enrich (confirmedData full d (generateKeplerName w store n))])) \<or>
           (success r \<and> action r = Some ''prediction_not_supported'' \<and> st = store)"
      by blast
    have out: "store' = st"
      "stats' = countInferResult n r (stats\<lparr>candidates := candidates stats + 1\<rparr>)"
      using assms processEntry_candidate [OF candidate, of w store r posts st stats] snd res
      by simp_all
    from cs consider
        (failed) "\<not> success r" "st = store"
      | (fp) "success r" "action r = Some ''saved_as_false_positive''"
          "\<exists>full d. fetchCompleteKOIData w n = Inr full \<and>
                        st = store @ [enrich (falsePositiveData full d)]"
      | (conf) "success r" "action r = Some ''saved_as_confirmed''"
          "\<exists>full d. fetchCompleteKOIData w n = Inr full \<and>
                 st = store @ [enrich (confirmedData full d (generateKeplerName w store n))]"
      | (other) "success r" "action r = Some ''prediction_not_supported''" "st = store"
      by blast
    then show ?thesis
    proof cases
      case failed
      then have "store' = store \<and> errors stats' = errors stats + 1 \<and>
            candidatesOtherPrediction stats' = candidatesOtherPrediction stats \<and>
            (\<exists>d. errorDetails stats' = errorDetails stats @ [d] \<and> ed_kepoi_name d = Some n)"
        using out by (simp add: countInferResult_def pushError_def inferApiError_def)
      then show ?thesis by blast
    next
      case fp
      have "errors stats' = errors stats \<and> errorDetails stats' = errorDetails stats \<and>
            candidatesOtherPrediction stats' = candidatesOtherPrediction stats"
        using out fp(1,2) by (simp add: countInferResult_def Let_def)
      then show ?thesis using candidate fp(3) out(1) by blast
    next
      case conf
      have "errors stats' = errors stats \<and> errorDetails stats' = errorDetails stats \<and>
            candidatesOtherPrediction stats' = candidatesOtherPrediction stats"
        using out conf(1,2) by (simp add: countInferResult_def Let_def)
      then show ?thesis using candidate conf(3) out(1) by blast
    next
      case other
      have "errors stats' = errors stats \<and> errorDetails stats' = errorDetails stats \<and>
            candidatesOtherPrediction stats' = candidatesOtherPrediction stats + 1"
        using out other(1,2) by (simp add: countInferResult_def Let_def)
      then show ?thesis using candidate other(3) out(1) by blast
    qed
  next
    case unknown
    have "store' = store \<and> errors stats' = errors stats + 1 \<and>
            candidatesOtherPrediction stats' = candidatesOtherPrediction stats \<and>
            (\<exists>d. errorDetails stats' = errorDetails stats @ [d] \<and> ed_kepoi_name d = Some n)"
      using assms processEntry_unknown [OF unknown, of w store stats]
      by (auto simp: pushError_def)
    then show ?thesis by blast
  qed
qed

lemma storedNames_append:
  "storedNames (store @ [k]) =
     storedNames store \<union> (if truthy (kepoi_name k) then {the (kepoi_name k)} else {})"
  by (simp add: storedNames_def)

lemma kepoi_name_enrich [simp]: "kepoi_name (enrich k) = kepoi_name k"
  by (simp add: enrich_def)

lemma kepoi_name_falsePositiveData [simp]: "kepoi_name (falsePositiveData k d) = kepoi_name k"
  by (simp add: falsePositiveData_def Let_def)

lemma kepoi_name_confirmedData [simp]: "kepoi_name (confirmedData k d kn) = kepoi_name k"
  by (simp add: confirmedData_def Let_def)

text \<open>One iteration, under a consistent full-record query: what it stores and counts.\<close>

lemma processEntry_step:
  assumes "fetchConsistent w" and "processEntry w (store, stats) e = (store', stats')"
    and "kepoi_name e = Some n" and "n \<noteq> []"
  shows "storedNames store \<subseteq> storedNames store'"
    and "storedNames store' \<subseteq> insert n (storedNames store)"
    and "errors stats \<le> errors stats'"
    and "candidatesOtherPrediction stats \<le> candidatesOtherPrediction stats'"
    and "errors stats' = errors stats \<Longrightarrow>
         candidatesOtherPrediction stats' = candidatesOtherPrediction stats \<Longrightarrow>
         n \<in> storedNames store'"
    and "\<exists>ds. errorDetails stats' = errorDetails stats @ ds \<and> length ds \<le> 1 \<and>
              (\<forall>d \<in> set ds. ed_kepoi_name d = Some n)"
proof -
  have nm: "fetchCompleteKOIData w n = Inr full \<Longrightarrow> kepoi_name full = Some n" for full
    using assms(1) by (simp add: fetchConsistent_def)
  note cs = processEntry_cases [OF assms(2,3)]
  show "storedNames store \<subseteq> storedNames store'"
    using cs by (auto simp: storedNames_append)
  show "storedNames store' \<subseteq> insert n (storedNames store)"
    using cs nm by (auto simp: storedNames_append split: if_splits)
  show "errors stats \<le> errors stats'"
    using cs by auto
  show "candidatesOtherPrediction stats \<le> candidatesOtherPrediction stats'"
    using cs by auto
  show "n \<in> storedNames store'"
    if "errors stats' = errors stats"
      "candidatesOtherPrediction stats' = candidatesOtherPrediction stats"
    using cs that nm assms(4) by (auto simp: storedNames_append truthy_def)
  show "\<exists>ds. errorDetails stats' = errorDetails stats @ ds \<and> length ds \<le> 1 \<and>
              (\<forall>d \<in> set ds. ed_kepoi_name d = Some n)"
    using cs
  proof (elim disjE)
    assume "store' = store \<and> errors stats' = errors stats + 1 \<and>
       candidatesOtherPrediction stats' = candidatesOtherPrediction stats \<and>
       (\<exists>d. errorDetails stats' = errorDetails stats @ [d] \<and> ed_kepoi_name d = Some n)"
    then obtain d where "errorDetails stats' = errorDetails stats @ [d]" "ed_kepoi_name d = Some n"
      by blast
    then show ?thesis by (intro exI [of _ "[d]"]) simp
  qed (auto intro: exI [of _ "[]"])
qed

text \<open>The loop over entries with truthy names only adds to the store and to the counters.\<close>

lemma loop_monotone:
  assumes "fetchConsistent w" and "\<forall>x \<in> set xs. truthy (kepoi_name x)"
    and "foldl (processEntry w) (store, stats) xs = (store', stats')"
  shows "storedNames store \<subseteq> storedNames store' \<and> errors stats \<le> errors stats' \<and>
         candidatesOtherPrediction stats \<le> candidatesOtherPrediction stats'"
  using assms(2,3)
proof (induction xs arbitrary: store stats)
  case Nil
  then show ?case by simp
next
  case (Cons x xs)
  obtain n where n: "kepoi_name x = Some n" "n \<noteq> []"
    using Cons.prems(1) by (auto simp: truthy_def split: option.splits)
  obtain s1 t1 where step: "processEntry w (store, stats) x = (s1, t1)"
    by (cases "processEntry w (store, stats) x")
  have rest: "foldl (processEntry w) (s1, t1) xs = (store', stats')"
    using Cons.prems(2) step by simp
  have "storedNames s1 \<subseteq> storedNames store' \<and> errors t1 \<le> errors stats' \<and>
         candidatesOtherPrediction t1 \<le> candidatesOtherPrediction stats'"
    using Cons.IH [OF _ rest] Cons.prems(1) by simp
  then show ?case
    using processEntry_step(1,3,4) [OF assms(1) step n] by (meson order_trans)
qed

text \<open>A loop that counts no error and no unsupported verdict has stored every entry.\<close>

lemma loop_all_persisted:
  assumes "fetchConsistent w" and "\<forall>x \<in> set xs. truthy (kepoi_name x)"
    and "foldl (processEntry w) (store, stats) xs = (store', stats')"
    and "errors stats' = errors stats"
    and "candidatesOtherPrediction stats' = candidatesOtherPrediction stats"
  shows "\<forall>x \<in> set xs. the (kepoi_name x) \<in> storedNames store'"
  using assms(2-5)
proof (induction xs arbitrary: store stats)
  case Nil
  then show ?case by simp
next
  case (Cons x xs)
  obtain n where n: "kepoi_name x = Some n" "n \<noteq> []"
    using Cons.prems(1) by (auto simp: truthy_def split: option.splits)
  obtain s1 t1 where step: "processEntry w (store, stats) x = (s1, t1)"
    by (cases "processEntry w (store, stats) x")
  have rest: "foldl (processEntry w) (s1, t1) xs = (store', stats')"
    using Cons.prems(2) step by simp
  have tr: "\<forall>x \<in> set xs. truthy (kepoi_name x)"
    using Cons.prems(1) by simp
  note mono = loop_monotone [OF assms(1) tr rest]
  note st = processEntry_step [OF assms(1) step n]
  have e1: "errors t1 = errors stats"
    using mono st(3) Cons.prems(3) by linarith
  have o1: "candidatesOtherPrediction t1 = candidatesOtherPrediction stats"
    using mono st(4) Cons.prems(4) by linarith
  have "n \<in> storedNames s1"
    using st(5) e1 o1 by simp
  then have here: "the (kepoi_name x) \<in> storedNames store'"
    using mono n by auto
  have "\<forall>x \<in> set xs. the (kepoi_name x) \<in> storedNames store'"
    using Cons.IH [OF tr rest] e1 o1 Cons.prems(3,4) by simp
  then show ?case using here by simp
qed

lemma newKepOIEntries_truthy:
  "\<forall>e \<in> set (newKepOIEntries remote existing). truthy (kepoi_name e)"
  by (simp add: newKepOIEntries_def isNewEntry_def)

lemma differ_nothing_left:
  assumes "\<forall>e \<in> set (newKepOIEntries remote existing). the (kepoi_name e) \<in> existing'"
    and "existing \<subseteq> existing'"
  shows "newKepOIEntries remote existing' = []"
proof -
  have "\<not> isNewEntry existing' e" if "e \<in> set remote" for e
  proof (cases "isNewEntry existing e")
    case True
    then have "e \<in> set (newKepOIEntries remote existing)"
      using that by (simp add: newKepOIEntries_def)
    then show ?thesis using assms(1) by (simp add: isNewEntry_def)
  next
    case False
    then show ?thesis using assms(2) by (auto simp: isNewEntry_def)
  qed
  then show ?thesis by (simp add: newKepOIEntries_def filter_empty_conv)
qed

text \<open>The pass unfolded, once the two fetches of the Differ have succeeded.\<close>

lemma synchronizeKOIData_run:
  assumes "fetchKepOINamesFromNASA w = Inr remote" and "find_names_fault w = None"
  shows "synchronizeKOIData w store =
           (Inr (snd (foldl (processEntry w)
                        (store, initialStats\<lparr>totalFromNASA := length remote,
                             newKOIs := length (newKepOIEntries remote (storedNames store))\<rparr>)
                        (newKepOIEntries remote (storedNames store)))),
            fst (foldl (processEntry w)
                        (store, initialStats\<lparr>totalFromNASA := length remote,
                             newKOIs := length (newKepOIEntries remote (storedNames store))\<rparr>)
                        (newKepOIEntries remote (storedNames store))))"
  using assms
  by (simp add: synchronizeKOIData_def getExistingKepOINames_def Let_def split: prod.splits)

lemma synchronizeKOIData_Inr:
  assumes "synchronizeKOIData w store = (Inr stats, store')"
  shows "\<exists>remote. fetchKepOINamesFromNASA w = Inr remote \<and> find_names_fault w = None"
  using assms
  by (auto simp: synchronizeKOIData_def getExistingKepOINames_def Let_def
           split: sum.splits option.splits)

lemma pass_without_failures_idempotent:
  assumes "fetchKepOINamesFromNASA w = Inr remote" and "fetchConsistent w"
    and "synchronizeKOIData w store = (Inr stats, store')"
    and "errors stats = 0" and "candidatesOtherPrediction stats = 0"
  shows "newKepOIEntries remote (storedNames store') = [] \<and>
         synchronizeKOIData w store' =
           (Inr (initialStats\<lparr>totalFromNASA := length remote, newKOIs := 0\<rparr>), store')"
proof -
  let ?new = "newKepOIEntries remote (storedNames store)"
  let ?init = "initialStats\<lparr>totalFromNASA := length remote, newKOIs := length ?new\<rparr>"
  have fault: "find_names_fault w = None"
    using synchronizeKOIData_Inr [OF assms(3)] by blast
  have loop: "foldl (processEntry w) (store, ?init) ?new = (store', stats)"
    using assms(3) synchronizeKOIData_run [OF assms(1) fault, of store]
    by (cases "foldl (processEntry w) (store, ?init) ?new") simp
  have zero: "errors stats = errors ?init" "candidatesOtherPrediction stats = candidatesOtherPrediction ?init"
    using assms(4,5) by (simp_all add: initialStats_def)
  have tr: "\<forall>x \<in> set ?new. truthy (kepoi_name x)"
    by (rule newKepOIEntries_truthy)
  have all: "\<forall>x \<in> set ?new. the (kepoi_name x) \<in> storedNames store'"
    using loop_all_persisted [OF assms(2) tr loop zero] .
  have sub: "storedNames store \<subseteq> storedNames store'"
    using loop_monotone [OF assms(2) tr loop] by simp
  have none: "newKepOIEntries remote (storedNames store') = []"
    using differ_nothing_left [OF all sub] .
  then show ?thesis
    using synchronizeKOIData_run [OF assms(1) fault, of store'] by simp
qed





subsection \<open>The store invariant\<close>

lemma stored_variants_invariant:
  "nameIffConfirmed full \<Longrightarrow> nameIffConfirmed (enrich full)"
  "kepler_name full = None \<Longrightarrow> nameIffConfirmed (enrich (falsePositiveData full d))"
  "nameIffConfirmed (enrich (confirmedData full d kn))"
  by (simp_all add: nameIffConfirmed_def isConfirmed_def enrich_def falsePositiveData_def
                    confirmedData_def Let_def upper_literals)

lemma processEntry_invariant:
  assumes "\<forall>k \<in> set store. nameIffConfirmed k" and "rowsAgree w entries" and "e \<in> set entries"
    and "kepoi_name e = Some n" and "processEntry w (store, stats) e = (store', stats')"
  shows "\<forall>k \<in> set store'. nameIffConfirmed k"
proof -
  have agree: "map_option toUpperCase (koi_disposition full) = dispositionOf e \<and> nameIffConfirmed full"
    if "fetchCompleteKOIData w n = Inr full" for full
    using assms(2,3,4) that by (simp add: rowsAgree_def dispositionOf_def)
  have unnamed: "kepler_name full = None"
    if "fetchCompleteKOIData w n = Inr full" "dispositionOf e = Some ''CANDIDATE''" for full
    using agree [OF that(1)] that(2) by (auto simp: nameIffConfirmed_def isConfirmed_def)
  from processEntry_cases [OF assms(5,4)] show ?thesis
    using assms(1) agree unnamed stored_variants_invariant
    by (elim disjE conjE exE) auto
qed

lemma loop_invariant:
  assumes "rowsAgree w entries" and "set xs \<subseteq> set entries"
    and "\<forall>x \<in> set xs. truthy (kepoi_name x)" and "\<forall>k \<in> set store. nameIffConfirmed k"
    and "foldl (processEntry w) (store, stats) xs = (store', stats')"
  shows "\<forall>k \<in> set store'. nameIffConfirmed k"
  using assms(2-5)
proof (induction xs arbitrary: store stats)
  case Nil
  then show ?case by simp
next
  case (Cons x xs)
  obtain n where n: "kepoi_name x = Some n"
    using Cons.prems(2) by (auto simp: truthy_def split: option.splits)
  obtain s1 t1 where step: "processEntry w (store, stats) x = (s1, t1)"
    by (cases "processEntry w (store, stats) x")
  have rest: "foldl (processEntry w) (s1, t1) xs = (store', stats')"
    using Cons.prems(4) step by simp
  have "x \<in> set entries"
    using Cons.prems(1) by simp
  then have inv1: "\<forall>k \<in> set s1. nameIffConfirmed k"
    using processEntry_invariant [OF Cons.prems(3) assms(1) _ n step] by simp
  show ?case
    using Cons.IH [OF _ _ inv1 rest] Cons.prems(1,2) by simp
qed

lemma pass_invariant:
  assumes "worldAgrees w" and "\<forall>k \<in> set store. nameIffConfirmed k"
  shows "\<forall>k \<in> set (snd (synchronizeKOIData w store)). nameIffConfirmed k"
proof (cases "fetchKepOINamesFromNASA w")
  case (Inl e)
  then show ?thesis using assms(2) by (simp add: synchronizeKOIData_def)
next
  case (Inr remote)
  then have agree: "rowsAgree w remote"
    using assms(1) by (simp add: worldAgrees_def)
  show ?thesis
  proof (cases "find_names_fault w")
    case (Some e)
    then show ?thesis
      using Inr assms(2) by (simp add: synchronizeKOIData_def getExistingKepOINames_def)
  next
    case None
    let ?new = "newKepOIEntries remote (storedNames store)"
    let ?init = "initialStats\<lparr>totalFromNASA := length remote, newKOIs := length ?new\<rparr>"
    obtain store' stats where loop: "foldl (processEntry w) (store, ?init) ?new = (store', stats)"
      by (cases "foldl (processEntry w) (store, ?init) ?new")
    have sub: "set ?new \<subseteq> set remote"
      by (simp add: newKepOIEntries_def)
    have "\<forall>k \<in> set store'. nameIffConfirmed k"
      using loop_invariant [OF agree sub newKepOIEntries_truthy assms(2) loop] .
    then show ?thesis
      using synchronizeKOIData_run [OF Inr None, of store] loop by simp
  qed
qed

lemma runPasses_Cons: "runPasses store (w # ws) = runPasses (snd (synchronizeKOIData w store)) ws"
  by (simp add: runPasses_def)

lemma runPasses_invariant:
  assumes "\<forall>w \<in> set ws. worldAgrees w" and "\<forall>k \<in> set store. nameIffConfirmed k"
  shows "\<forall>k \<in> set (runPasses store ws). nameIffConfirmed k"
  using assms
proof (induction ws arbitrary: store)
  case Nil
  then show ?case by (simp add: runPasses_def)
next
  case (Cons w ws)
  have "\<forall>k \<in> set (snd (synchronizeKOIData w store)). nameIffConfirmed k"
    using pass_invariant [of w store] Cons.prems by simp
  then show ?case
    unfolding runPasses_Cons using Cons.IH Cons.prems(1) by simp
qed

section \<open>Facts about the scheduler\<close>

lemma guardAgrees_step: "guardAgrees s \<Longrightarrow> guardAgrees (step s ev)"
  by (cases ev)
     (auto simp: guardAgrees_def runSyncNow_def executeSyncTask_begin_def executeSyncTask_end_def
           split: if_splits prod.splits sum.splits)

lemma guardAgrees_run: "guardAgrees s \<Longrightarrow> guardAgrees (run s events)"
  unfolding run_def by (induction events arbitrary: s) (simp_all add: guardAgrees_step)

lemma guardAgrees_initial: "guardAgrees (initialScheduler store logs)"
  by (simp add: guardAgrees_def initialScheduler_def)

lemma executeSyncTask_end_releases:
  "\<not> isRunning (snd (executeSyncTask_end w s)) \<and>
   passesInFlight (snd (executeSyncTask_end w s)) = passesInFlight s - 1"
  by (simp add: executeSyncTask_end_def split: prod.splits sum.splits)

section \<open>Facts about the allocator\<close>

subsection \<open>Decimal numbers in names\<close>







lemma leftmost_here: "m s = Some r \<Longrightarrow> leftmost m s = Some r"
  by (cases s) simp_all




subsection \<open>The largest label in the store\<close>

lemma keplerDigitsHere_Nil: "keplerDigitsHere [] = None"
  by (simp add: keplerDigitsHere_def toLowerCase_def)

lemma keplerDigitsHere_nonempty: "keplerDigitsHere s = Some r \<Longrightarrow> s \<noteq> []"
  by (auto simp: keplerDigitsHere_Nil)

lemma hasKeplerPrefix_label: "hasKeplerPrefix k \<Longrightarrow> labelOf k \<noteq> None \<and> truthy (kepler_name k)"
proof -
  assume "hasKeplerPrefix k"
  then obtain s r where s: "kepler_name k = Some s" "keplerDigitsHere s = Some r"
    by (auto simp: hasKeplerPrefix_def split: option.splits)
  have lm: "leftmost keplerDigitsHere s = Some r"
    using s(2) by (rule leftmost_here)
  have ne: "s \<noteq> []"
    using s(2) by (rule keplerDigitsHere_nonempty)
  show ?thesis
    using s(1) lm ne by (simp add: labelOf_def extractKeplerNumber_def truthy_def)
qed













subsection \<open>Grouping the found names\<close>














subsection \<open>The most populated group and the next letter\<close>







section \<open>Facts about the example inputs\<close>

lemma example_fetch:
  "fetchCompleteKOIData (exampleWorld es candidateRows c) name = Inr (row name ''CANDIDATE'' None)"
  by (simp add: fetchCompleteKOIData_def exampleWorld_def candidateRows_def ok200_def)

lemma example_post:
  "infer_post (exampleWorld es f c) (inferData full name) = c name"
  by (simp add: exampleWorld_def inferData_def)

lemma example_insert: "\<forall>k. insert_fault (exampleWorld es f c) k = None"
  by (simp add: exampleWorld_def)

lemma example_names: "fetchKepOINamesFromNASA (exampleWorld es f c) = Inr es"
  by (simp add: fetchKepOINamesFromNASA_def exampleWorld_def ok200_def)

lemma example_consistent: "fetchConsistent (exampleWorld es candidateRows c)"
  by (auto simp: fetchConsistent_def example_fetch row_def)



lemma duplicate_pass:
  "map kepoi_name (runPasses [] [worldDuplicateName]) = [Some ''K00001.01'', Some ''K00002.01''] \<and>
   map koi_disposition (runPasses [] [worldDuplicateName]) = [Some ''CONFIRMED'', Some ''CONFIRMED''] \<and>
   map kepler_name (runPasses [] [worldDuplicateName]) = [Some ''Kepler-1 b'', Some ''Kepler-1 b'']"
  by (simp add: runPasses_def worldDuplicateName_def duplicateRows_def example_defs verdictData_def
                pass_defs string_defs allocator_defs INFER_FIELDS_def)

lemma worldDuplicateName_agrees: "worldAgrees worldDuplicateName"
proof -
  have names: "fetchKepOINamesFromNASA worldDuplicateName
                 = Inr [entry ''K00001.01'' ''CANDIDATE'', entry ''K00002.01'' ''CONFIRMED'']"
    unfolding worldDuplicateName_def by (rule example_names)
  have f1: "fetchCompleteKOIData worldDuplicateName ''K00001.01''
              = Inr (row ''K00001.01'' ''CANDIDATE'' None)"
    by (simp add: fetchCompleteKOIData_def worldDuplicateName_def exampleWorld_def
                  duplicateRows_def ok200_def)
  have f2: "fetchCompleteKOIData worldDuplicateName ''K00002.01''
              = Inr (row ''K00002.01'' ''CONFIRMED'' (Some ''Kepler-1 b''))"
    by (simp add: fetchCompleteKOIData_def worldDuplicateName_def exampleWorld_def
                  duplicateRows_def ok200_def)
  have r1: "nameIffConfirmed (row ''K00001.01'' ''CANDIDATE'' None)"
    by (simp add: nameIffConfirmed_def isConfirmed_def row_def string_defs)
  have r2: "nameIffConfirmed (row ''K00002.01'' ''CONFIRMED'' (Some ''Kepler-1 b''))"
    by (simp add: nameIffConfirmed_def isConfirmed_def row_def string_defs)
  show ?thesis
    unfolding worldAgrees_def names
    using f1 f2 r1 r2 by (auto simp: rowsAgree_def entry_def row_def)
qed

lemma unnamed_pass:
  "map koi_disposition (runPasses [] [worldUnnamedConfirmed]) = [Some ''CONFIRMED''] \<and>
   map kepler_name (runPasses [] [worldUnnamedConfirmed]) = [None]"
  by (simp add: runPasses_def worldUnnamedConfirmed_def unnamedRows_def example_defs
                pass_defs string_defs)

section \<open>The claims\<close>

subsection \<open>Scheduler\<close>

text \<open>
  C1. In every state the scheduler reaches from its initial state by manual triggers,
  periodic triggers and ends of passes, if a pass is running then \<^verbatim>\<open>runSyncNow\<close> throws
  the error \<^verbatim>\<open>A synchronization is already in progress\<close> and changes nothing: no pass is
  begun or queued and no log entry is written, so exactly one pass stays in flight. When
  that pass ends, with statistics or with an error, the flag is reset, no pass is in
  flight, and a manual trigger is accepted again.
\<close>

theorem manual_trigger_conflict:
  assumes "s = run (initialScheduler store logs) events" and "isRunning s"
  shows "runSyncNow s = (Inl (Error ''A synchronization is already in progress''), s) \<and>
         step s ManualTrigger = s \<and>
         passesInFlight s = 1 \<and>
         (\<forall>w. \<not> isRunning (snd (executeSyncTask_end w s)) \<and>
              passesInFlight (snd (executeSyncTask_end w s)) = 0 \<and>
              fst (runSyncNow (snd (executeSyncTask_end w s))) = Inr ())"
proof -
  have "guardAgrees s"
    using assms(1) guardAgrees_initial guardAgrees_run by simp
  with assms(2) have one: "passesInFlight s = 1"
    by (simp add: guardAgrees_def)
  have rej: "runSyncNow s = (Inl (Error ''A synchronization is already in progress''), s)"
    using assms(2) by (simp add: runSyncNow_def)
  have rel: "\<not> isRunning (snd (executeSyncTask_end w s)) \<and>
             passesInFlight (snd (executeSyncTask_end w s)) = 0 \<and>
             fst (runSyncNow (snd (executeSyncTask_end w s))) = Inr ()" for w
    using executeSyncTask_end_releases [of w s] one by (simp add: runSyncNow_def)
  show ?thesis using rej one rel by simp
qed

theorem manual_trigger_conflict_witness:
  "isRunning (run (initialScheduler [] []) [CronTrigger]) \<and>
   fst (runSyncNow (run (initialScheduler [] []) [CronTrigger]))
     = Inl (Error ''A synchronization is already in progress'') \<and>
   run (initialScheduler [] []) [CronTrigger, ManualTrigger] = run (initialScheduler [] []) [CronTrigger] \<and>
   \<not> isRunning (run (initialScheduler [] []) [CronTrigger, ManualTrigger, PassEnds worldDown]) \<and>
   \<not> isRunning (run (initialScheduler [] []) [CronTrigger, ManualTrigger, PassEnds worldOneFails]) \<and>
   (\<exists>e. fst (executeSyncTask_end worldDown (run (initialScheduler [] []) [CronTrigger])) = Inl e) \<and>
   (\<exists>stats. fst (executeSyncTask_end worldOneFails (run (initialScheduler [] []) [CronTrigger]))
              = Inr stats)"
proof -
  let ?s = "run (initialScheduler [] []) [CronTrigger]"
  have r: "isRunning ?s"
    by (simp add: run_def initialScheduler_def executeSyncTask_begin_def)
  have f: "passesInFlight ?s \<noteq> 0"
    by (simp add: run_def initialScheduler_def executeSyncTask_begin_def)
  have k: "koi_objects ?s = []"
    by (simp add: run_def initialScheduler_def executeSyncTask_begin_def)
  have m: "run (initialScheduler [] []) [CronTrigger, ManualTrigger] = step ?s ManualTrigger"
    by (simp add: run_def)
  have e: "run (initialScheduler [] []) [CronTrigger, ManualTrigger, PassEnds w]
             = step (step ?s ManualTrigger) (PassEnds w)" for w
    by (simp add: run_def)
  have down: "\<exists>e. fst (executeSyncTask_end worldDown ?s) = Inl e"
    by (simp add: executeSyncTask_end_def synchronizeKOIData_def fetchKepOINamesFromNASA_def
                  worldDown_def exampleWorld_def)
  have names: "fetchKepOINamesFromNASA worldOneFails
                 = Inr [entry ''K00003.01'' ''CANDIDATE'', entry ''K00004.01'' ''CONFIRMED'']"
    unfolding worldOneFails_def by (rule example_names)
  have db: "find_names_fault worldOneFails = None"
    by (simp add: worldOneFails_def exampleWorld_def)
  have "\<exists>stats store'. synchronizeKOIData worldOneFails [] = (Inr stats, store')"
    using synchronizeKOIData_run [OF names db, of "[]"] by blast
  then have up: "\<exists>stats. fst (executeSyncTask_end worldOneFails ?s) = Inr stats"
    using k by (auto simp: executeSyncTask_end_def)
  from manual_trigger_conflict [OF refl r]
  show ?thesis using r f down up unfolding m e by simp
qed

subsection \<open>Store invariant\<close>

text \<open>
  C2 reads: in every store reachable by passes, a record with status Confirmed has a
  non-null assigned name that no other record carries, and any other record has none.
  Uniqueness fails: the allocator looks only at the names already stored, and the pass
  stores the catalog's own names unchecked. Below, the catalog lists a candidate, which
  the classifier confirms, before a record it confirms itself as \<^verbatim>\<open>Kepler-1 b\<close>; against the
  empty store the candidate is named \<^verbatim>\<open>Kepler-1 b\<close> too, and both records are stored.
  The presence of a name is the catalog's as well: a record it confirms without a name
  is stored without one.
\<close>

theorem assigned_name_unique_counterexample:
  "map kepoi_name (runPasses [] [worldDuplicateName]) = [Some ''K00001.01'', Some ''K00002.01''] \<and>
   map koi_disposition (runPasses [] [worldDuplicateName]) = [Some ''CONFIRMED'', Some ''CONFIRMED''] \<and>
   map kepler_name (runPasses [] [worldDuplicateName]) = [Some ''Kepler-1 b'', Some ''Kepler-1 b''] \<and>
   map koi_disposition (runPasses [] [worldUnnamedConfirmed]) = [Some ''CONFIRMED''] \<and>
   map kepler_name (runPasses [] [worldUnnamedConfirmed]) = [None]"
  using duplicate_pass unnamed_pass by simp

text \<open>
  C2, amended. Let the remote catalog's full records carry the status its projection
  shows and an assigned name exactly when that status is Confirmed. Then in every store
  reached by passes from a store with the same property, every record with status
  Confirmed has a non-null assigned name and every other record has none. That two
  records never share an assigned name is not part of the statement.
\<close>

theorem assigned_name_iff_confirmed:
  assumes "\<forall>k \<in> set store. nameIffConfirmed k" and "\<forall>w \<in> set ws. worldAgrees w"
  shows "\<forall>k \<in> set (runPasses store ws).
           (isConfirmed k \<longrightarrow> kepler_name k \<noteq> None) \<and>
           (\<not> isConfirmed k \<longrightarrow> kepler_name k = None)"
  using runPasses_invariant [OF assms(2,1)] by (auto simp: nameIffConfirmed_def)

theorem assigned_name_iff_confirmed_witness:
  "worldAgrees worldDuplicateName \<and>
   length (runPasses [] [worldDuplicateName]) = 2 \<and>
   list_all (\<lambda>k. isConfirmed k \<and> kepler_name k \<noteq> None) (runPasses [] [worldDuplicateName])"
proof -
  have ws: "\<forall>w \<in> set [worldDuplicateName]. worldAgrees w"
    using worldDuplicateName_agrees by simp
  have len: "length (runPasses [] [worldDuplicateName]) = 2"
    using duplicate_pass by (metis length_map length_Cons list.size(3) numeral_2_eq_2)
  have conf: "\<forall>k \<in> set (runPasses [] [worldDuplicateName]). isConfirmed k"
  proof
    fix k assume "k \<in> set (runPasses [] [worldDuplicateName])"
    then have "koi_disposition k \<in> set (map koi_disposition (runPasses [] [worldDuplicateName]))"
      by simp
    then have "koi_disposition k = Some ''CONFIRMED''"
      using duplicate_pass by simp
    then show "isConfirmed k"
      by (simp add: isConfirmed_def upper_literals)
  qed
  from assigned_name_iff_confirmed [of "[]" "[worldDuplicateName]"] ws
  have "\<forall>k \<in> set (runPasses [] [worldDuplicateName]).
           (isConfirmed k \<longrightarrow> kepler_name k \<noteq> None) \<and>
           (\<not> isConfirmed k \<longrightarrow> kepler_name k = None)"
    by simp
  then show ?thesis
    using conf len worldDuplicateName_agrees by (simp add: list_all_iff)
qed

subsection \<open>Dataset Differ\<close>

text \<open>
  C3. For a remote snapshot in which every entry carries an identity (the filter's guard
  drops an entry whose name is null or empty), the Differ returns exactly the entries whose
  identity is not among the stored ones, in the order of the snapshot. Consequently, when
  a pass over such a snapshot has stored every new record (it counted no error and no
  unsupported verdict, and the full-record query answers with the identity asked for), a
  second pass over the same remote data finds no new record and leaves the store as it is.
\<close>

theorem differ_new_entries:
  assumes "\<forall>e \<in> set remote. truthy (kepoi_name e)"
  shows "newKepOIEntries remote existing = filter (\<lambda>e. the (kepoi_name e) \<notin> existing) remote \<and>
         (\<forall>w store stats store'.
            fetchKepOINamesFromNASA w = Inr remote \<and> fetchConsistent w \<and>
            synchronizeKOIData w store = (Inr stats, store') \<and>
            errors stats = 0 \<and> candidatesOtherPrediction stats = 0 \<longrightarrow>
              newKepOIEntries remote (storedNames store') = [] \<and>
              (\<exists>stats2. synchronizeKOIData w store' = (Inr stats2, store') \<and> newKOIs stats2 = 0))"
proof -
  have "newKepOIEntries remote existing = filter (\<lambda>e. the (kepoi_name e) \<notin> existing) remote"
    unfolding newKepOIEntries_def isNewEntry_def using assms by (intro filter_cong) auto
  moreover have "newKepOIEntries remote (storedNames store') = [] \<and>
              (\<exists>stats2. synchronizeKOIData w store' = (Inr stats2, store') \<and> newKOIs stats2 = 0)"
    if "fetchKepOINamesFromNASA w = Inr remote \<and> fetchConsistent w \<and>
            synchronizeKOIData w store = (Inr stats, store') \<and>
            errors stats = 0 \<and> candidatesOtherPrediction stats = 0" for w store stats store'
  proof -
    from that have "newKepOIEntries remote (storedNames store') = [] \<and>
         synchronizeKOIData w store' =
           (Inr (initialStats\<lparr>totalFromNASA := length remote, newKOIs := 0\<rparr>), store')"
      using pass_without_failures_idempotent by blast
    then show ?thesis by simp
  qed
  ultimately show ?thesis by blast
qed

theorem differ_new_entries_witness:
  "newKepOIEntries [entry ''K00001.01'' ''CONFIRMED'', entry ''K00752.01'' ''CANDIDATE'']
       {''K00001.01''} = [entry ''K00752.01'' ''CANDIDATE''] \<and>
   (\<exists>stats store' stats2.
       synchronizeKOIData worldFalsePositive [] = (Inr stats, store') \<and> newKOIs stats = 1 \<and>
       synchronizeKOIData worldFalsePositive store' = (Inr stats2, store') \<and> newKOIs stats2 = 0)"
proof -
  let ?remote = "[entry ''K00001.01'' ''CONFIRMED'', entry ''K00752.01'' ''CANDIDATE'']"
  have t2: "\<forall>e \<in> set ?remote. truthy (kepoi_name e)"
    by (simp add: entry_def truthy_def)
  have a: "newKepOIEntries ?remote {''K00001.01''} = [entry ''K00752.01'' ''CANDIDATE'']"
    using differ_new_entries [OF t2, of "{''K00001.01''}"] by (simp add: entry_def)
  have t1: "\<forall>e \<in> set [entry ''K00752.01'' ''CANDIDATE'']. truthy (kepoi_name e)"
    by (simp add: entry_def truthy_def)
  have names: "fetchKepOINamesFromNASA worldFalsePositive = Inr [entry ''K00752.01'' ''CANDIDATE'']"
    unfolding worldFalsePositive_def by (rule example_names)
  have cons: "fetchConsistent worldFalsePositive"
    unfolding worldFalsePositive_def by (rule example_consistent)
  have "\<exists>stats store'. synchronizeKOIData worldFalsePositive [] = (Inr stats, store') \<and>
          newKOIs stats = 1 \<and> errors stats = 0 \<and> candidatesOtherPrediction stats = 0"
    by (simp add: worldFalsePositive_def example_defs verdictData_def pass_defs string_defs
                  INFER_FIELDS_def)
  then obtain stats store' where
    first: "synchronizeKOIData worldFalsePositive [] = (Inr stats, store')"
      "newKOIs stats = 1" "errors stats = 0" "candidatesOtherPrediction stats = 0"
    by blast
  have "\<exists>stats2. synchronizeKOIData worldFalsePositive store' = (Inr stats2, store') \<and> newKOIs stats2 = 0"
    using differ_new_entries [OF t1, of "{}"] names cons first by blast
  then show ?thesis using a first by blast
qed

subsection \<open>Identifier Allocator\<close>





subsection \<open>Classification Gateway\<close>



text \<open>
  C7. For every world, store and identity the gateway returns an object and throws nothing,
  after at most one request to the classifier. When the fetch of the record fails, when
  the request (sent with the 10000 ms timeout) fails by timeout, by an HTTP error or by
  any other error, and when the answer's status is not 200, the outcome is failed, the
  error text is recorded and the store is untouched.
\<close>

theorem gateway_never_raises:
  "(\<exists>r posts store'. sendCandidateToInferAPI w store name = ((Inr r, posts), store') \<and> posts \<le> 1) \<and>
   (\<forall>e. fetchCompleteKOIData w name = Inl e \<longrightarrow>
      (\<exists>r. sendCandidateToInferAPI w store name = ((Inr r, 0), store) \<and>
           outcomeOf r = Failed \<and> res_error r \<noteq> None)) \<and>
   (\<forall>full e. fetchCompleteKOIData w name = Inr full \<and> infer_post w (inferData full name) = Inl e \<longrightarrow>
      req_timeout (inferData full name) = 10000 \<and>
      (\<exists>r. sendCandidateToInferAPI w store name = ((Inr r, 1), store) \<and>
           outcomeOf r = Failed \<and>
           res_error r = Some
             (if err_code e = Some ''ECONNABORTED'' \<or> str_includes (err_message e) ''timeout''
              then ''Timeout 10s exceeded''
              else case err_response e of
                     Some (st, txt) \<Rightarrow> ''HTTP '' @ showNat st @ '': '' @ txt
                   | None \<Rightarrow> ''Connection error: '' @ err_message e))) \<and>
   (\<forall>full response. fetchCompleteKOIData w name = Inr full \<and>
        infer_post w (inferData full name) = Inr response \<and> infer_status response \<noteq> 200 \<longrightarrow>
      (\<exists>r. sendCandidateToInferAPI w store name = ((Inr r, 1), store) \<and>
           outcomeOf r = Failed \<and>
           res_status r = Some (infer_status response) \<and>
           res_error r = Some (''HTTP '' @ showNat (infer_status response) @ '' - non-200 response'')))"
proof (intro conjI allI impI)
  show "\<exists>r posts store'. sendCandidateToInferAPI w store name = ((Inr r, posts), store') \<and> posts \<le> 1"
    by (rule send_returns)
next
  fix e assume "fetchCompleteKOIData w name = Inl e"
  then show "\<exists>r. sendCandidateToInferAPI w store name = ((Inr r, 0), store) \<and>
           outcomeOf r = Failed \<and> res_error r \<noteq> None"
    using catchInfer_returns [of name e]
    by (auto simp: sendCandidateToInferAPI_def outcomeOf_def)
next
  fix full e
  assume "fetchCompleteKOIData w name = Inr full \<and> infer_post w (inferData full name) = Inl e"
  then show "\<exists>r. sendCandidateToInferAPI w store name = ((Inr r, 1), store) \<and>
           outcomeOf r = Failed \<and>
           res_error r = Some
             (if err_code e = Some ''ECONNABORTED'' \<or> str_includes (err_message e) ''timeout''
              then ''Timeout 10s exceeded''
              else case err_response e of
                     Some (st, txt) \<Rightarrow> ''HTTP '' @ showNat st @ '': '' @ txt
                   | None \<Rightarrow> ''Connection error: '' @ err_message e)"
    by (simp add: sendCandidateToInferAPI_def catchInfer_eq failure_def outcomeOf_def)
next
  fix full e
  show "req_timeout (inferData full name) = 10000"
    by (simp add: inferData_def)
next
  fix full response
  assume "fetchCompleteKOIData w name = Inr full \<and>
        infer_post w (inferData full name) = Inr response \<and> infer_status response \<noteq> 200"
  then show "\<exists>r. sendCandidateToInferAPI w store name = ((Inr r, 1), store) \<and>
           outcomeOf r = Failed \<and>
           res_status r = Some (infer_status response) \<and>
           res_error r = Some (''HTTP '' @ showNat (infer_status response) @ '' - non-200 response'')"
    by (simp add: sendCandidateToInferAPI_def failure_def outcomeOf_def)
qed

theorem gateway_never_raises_witness:
  "infer_post worldTimeout (inferData (row ''K00003.01'' ''CANDIDATE'' None) ''K00003.01'')
     = Inl timeoutError \<and>
   (\<exists>r. sendCandidateToInferAPI worldTimeout [] ''K00003.01'' = ((Inr r, 1), []) \<and>
        outcomeOf r = Failed \<and> res_error r = Some ''Timeout 10s exceeded'') \<and>
   (\<exists>r. sendCandidateToInferAPI worldServerError [] ''K00003.01'' = ((Inr r, 1), []) \<and>
        outcomeOf r = Failed \<and> res_error r = Some ''HTTP 500: Internal Server Error'')"
proof -
  have pt: "infer_post worldTimeout (inferData (row ''K00003.01'' ''CANDIDATE'' None) ''K00003.01'')
              = Inl timeoutError"
    unfolding worldTimeout_def example_post by simp
  have ps: "infer_post worldServerError (inferData (row ''K00003.01'' ''CANDIDATE'' None) ''K00003.01'')
              = Inl serverError"
    unfolding worldServerError_def example_post by simp
  have ft: "fetchCompleteKOIData worldTimeout ''K00003.01'' = Inr (row ''K00003.01'' ''CANDIDATE'' None)"
    unfolding worldTimeout_def by (rule example_fetch)
  have fs: "fetchCompleteKOIData worldServerError ''K00003.01'' = Inr (row ''K00003.01'' ''CANDIDATE'' None)"
    unfolding worldServerError_def by (rule example_fetch)
  have nt: "\<not> str_includes (err_message serverError) ''timeout''"
    by (simp add: serverError_def)
  have s500: "showNat 500 = ''500''"
    by (simp add: showNat.simps digit_chars_def)
  have a: "\<exists>r. sendCandidateToInferAPI worldTimeout [] ''K00003.01'' = ((Inr r, 1), []) \<and>
        outcomeOf r = Failed \<and> res_error r = Some ''Timeout 10s exceeded''"
    using gateway_never_raises [of worldTimeout "[]" "''K00003.01''"] pt ft
    by (simp add: timeoutError_def)
  have b: "\<exists>r. sendCandidateToInferAPI worldServerError [] ''K00003.01'' = ((Inr r, 1), []) \<and>
        outcomeOf r = Failed \<and> res_error r = Some ''HTTP 500: Internal Server Error''"
    using gateway_never_raises [of worldServerError "[]" "''K00003.01''"] ps fs nt s500
    by (simp add: serverError_def)
  show ?thesis using a b pt by simp
qed

subsection \<open>Synchronization Orchestrator\<close>



text \<open>
  C9 reads: when the fetch of one record's full field set fails, for a record the catalog
  lists as Confirmed or FalsePositive, the pass fails. It does not: the loop body catches
  the error. Below, the fetch for the first of two confirmed records fails; the pass
  returns statistics with one error, stores the second record, and the scheduler logs the
  statistics, not a failure.
\<close>

theorem record_fetch_failure_fatal_counterexample:
  "dispositionOf (entry ''K00001.01'' ''CONFIRMED'') = Some ''CONFIRMED'' \<and>
   fetchCompleteKOIData worldBrokenFetch ''K00001.01'' = Inl serverError \<and>
   fst (synchronizeKOIData worldBrokenFetch []) = Inr brokenFetchStats \<and>
   map kepoi_name (snd (synchronizeKOIData worldBrokenFetch [])) = [Some ''K00002.01''] \<and>
   sync_logs (run (initialScheduler [] []) [ManualTrigger, PassEnds worldBrokenFetch])
     = [StatsLog brokenFetchStats]"
proof -
  have d: "dispositionOf (entry ''K00001.01'' ''CONFIRMED'') = Some ''CONFIRMED''"
    by (simp add: dispositionOf_def entry_def string_defs)
  have f: "fetchCompleteKOIData worldBrokenFetch ''K00001.01'' = Inl serverError"
    by (simp add: fetchCompleteKOIData_def worldBrokenFetch_def exampleWorld_def brokenRows_def)
  have p: "synchronizeKOIData worldBrokenFetch [] =
             (Inr brokenFetchStats, [enrich (row ''K00002.01'' ''CONFIRMED'' (Some ''Kepler-2 b''))])"
    by (simp add: worldBrokenFetch_def brokenRows_def brokenFetchStats_def serverError_def
                  example_defs pass_defs string_defs)
  have k: "map kepoi_name (snd (synchronizeKOIData worldBrokenFetch [])) = [Some ''K00002.01'']"
    unfolding p by (simp add: row_def)
  have lf: "log_fault worldBrokenFetch = None"
    by (simp add: worldBrokenFetch_def exampleWorld_def)
  have l: "sync_logs (run (initialScheduler [] []) [ManualTrigger, PassEnds worldBrokenFetch])
     = [StatsLog brokenFetchStats]"
    using lf
    by (simp add: run_def initialScheduler_def runSyncNow_def executeSyncTask_begin_def
                  executeSyncTask_end_def p saveSyncStats_def)
  show ?thesis using d f p k l by simp
qed

text \<open>
  C9, amended. A failed fetch of one record's full field set, for a record the catalog lists
  as Confirmed or FalsePositive, is not fatal: the iteration stores nothing, adds one to
  the error counter and appends a \<^verbatim>\<open>processing_error\<close> detail with the identity and the
  message; the pass returns its statistics whenever the Differ's two fetches succeed, and
  a pass that throws does so with the error of one of those two fetches.
\<close>

theorem record_fetch_failure_not_fatal:
  assumes "dispositionOf e = Some ''CONFIRMED'' \<or> dispositionOf e = Some ''FALSE POSITIVE''"
    and "fetchCompleteKOIData w (the (kepoi_name e)) = Inl err"
  shows "processEntry w (store, stats) e =
           (store, stats\<lparr>errors := errors stats + 1,
                         errorDetails := errorDetails stats @
                           [\<lparr>ed_kepoi_name = kepoi_name e, ed_type = ''processing_error'',
                             ed_error = Some (err_message err), ed_status = None\<rparr>]\<rparr>) \<and>
         (\<forall>remote. fetchKepOINamesFromNASA w = Inr remote \<and> find_names_fault w = None \<longrightarrow>
            (\<exists>stats' store'. synchronizeKOIData w store = (Inr stats', store'))) \<and>
         (\<forall>x. fst (synchronizeKOIData w store) = Inl x \<longrightarrow>
            fetchKepOINamesFromNASA w = Inl x \<or> find_names_fault w = Some x)"
proof (intro conjI allI impI)
  show "processEntry w (store, stats) e =
           (store, stats\<lparr>errors := errors stats + 1,
                         errorDetails := errorDetails stats @
                           [\<lparr>ed_kepoi_name = kepoi_name e, ed_type = ''processing_error'',
                             ed_error = Some (err_message err), ed_status = None\<rparr>]\<rparr>)"
    using processEntry_decided [OF assms(1), of w store stats] assms(2)
    by (simp add: processingError_def pushError_def)
next
  fix remote
  assume "fetchKepOINamesFromNASA w = Inr remote \<and> find_names_fault w = None"
  then show "\<exists>stats' store'. synchronizeKOIData w store = (Inr stats', store')"
    using synchronizeKOIData_run [of w remote store] by blast
next
  fix x
  assume "fst (synchronizeKOIData w store) = Inl x"
  then show "fetchKepOINamesFromNASA w = Inl x \<or> find_names_fault w = Some x"
    by (auto simp: synchronizeKOIData_def getExistingKepOINames_def Let_def
             split: sum.splits option.splits prod.splits if_splits)
qed

theorem record_fetch_failure_not_fatal_witness:
  "fetchCompleteKOIData worldBrokenFetch ''K00001.01'' = Inl serverError \<and>
   processEntry worldBrokenFetch ([], initialStats) (entry ''K00001.01'' ''CONFIRMED'') =
     ([], initialStats\<lparr>errors := 1,
            errorDetails := [\<lparr>ed_kepoi_name = Some ''K00001.01'', ed_type = ''processing_error'',
                               ed_error = Some ''Request failed with status code 500'',
                               ed_status = None\<rparr>]\<rparr>) \<and>
   (\<exists>stats' store'. synchronizeKOIData worldBrokenFetch [] = (Inr stats', store'))"
proof -
  have d: "dispositionOf (entry ''K00001.01'' ''CONFIRMED'') = Some ''CONFIRMED'' \<or>
           dispositionOf (entry ''K00001.01'' ''CONFIRMED'') = Some ''FALSE POSITIVE''"
    by (simp add: dispositionOf_def entry_def string_defs)
  have f: "fetchCompleteKOIData worldBrokenFetch (the (kepoi_name (entry ''K00001.01'' ''CONFIRMED'')))
             = Inl serverError"
    by (simp add: fetchCompleteKOIData_def worldBrokenFetch_def exampleWorld_def brokenRows_def
                  entry_def)
  have names: "fetchKepOINamesFromNASA worldBrokenFetch
                 = Inr [entry ''K00001.01'' ''CONFIRMED'', entry ''K00002.01'' ''CONFIRMED'']"
    unfolding worldBrokenFetch_def by (rule example_names)
  have db: "find_names_fault worldBrokenFetch = None"
    by (simp add: worldBrokenFetch_def exampleWorld_def)
  from record_fetch_failure_not_fatal [OF d f, of "[]" initialStats]
  show ?thesis using f names db
    by (simp add: entry_def initialStats_def serverError_def)
qed

subsection \<open>Classifier answers without a probability\<close>

text \<open>
  C10. A classifier answer with status 200 in which the probability is absent is treated
  as probability 0: a \<^verbatim>\<open>FALSE POSITIVE\<close> verdict is stored with confidence 1, a
  \<^verbatim>\<open>CONFIRMED\<close> verdict with confidence 0.
\<close>

theorem gateway_absent_probability:
  assumes "fetchCompleteKOIData w name = Inr full"
    and "infer_post w (inferData full name) = Inr response"
    and "infer_status response = 200"
    and "infer_body response = Some d"
    and "probability d = None"
    and "\<forall>k. insert_fault w k = None"
  shows "probabilityOrZero d = 0 \<and>
         (upperPrediction response = Some ''FALSE POSITIVE'' \<longrightarrow>
            (\<exists>r rec. sendCandidateToInferAPI w store name = ((Inr r, 1), store @ [rec]) \<and>
               outcomeOf r = FalsePositive \<and>
               koi_disposition rec = Some ''FALSE POSITIVE'' \<and>
               confidence_score rec = Some 1)) \<and>
         (upperPrediction response = Some ''CONFIRMED'' \<longrightarrow>
            (\<exists>r rec. sendCandidateToInferAPI w store name = ((Inr r, 1), store @ [rec]) \<and>
               outcomeOf r = Confirmed \<and>
               koi_disposition rec = Some ''CONFIRMED'' \<and>
               confidence_score rec = Some 0))"
proof -
  have zero: "probabilityOrZero d = 0"
    using assms(5) by (simp add: probabilityOrZero_def)
  from gateway_verdict_records [OF assms(1-4) assms(6), of store]
  show ?thesis unfolding zero by auto
qed

theorem gateway_absent_probability_witness:
  "probability (verdictData ''FALSE POSITIVE'' None) = None \<and>
   (\<exists>r rec. sendCandidateToInferAPI worldFalsePositiveNoProbability [] ''K00752.01'' = ((Inr r, 1), [rec]) \<and>
      outcomeOf r = FalsePositive \<and> koi_disposition rec = Some ''FALSE POSITIVE'' \<and>
      confidence_score rec = Some 1) \<and>
   (\<exists>r rec. sendCandidateToInferAPI worldConfirmedNoProbability [] ''K00752.01'' = ((Inr r, 1), [rec]) \<and>
      outcomeOf r = Confirmed \<and> koi_disposition rec = Some ''CONFIRMED'' \<and>
      confidence_score rec = Some 0)"
proof -
  let ?fp = "\<lparr>infer_status = 200, infer_body = Some (verdictData ''FALSE POSITIVE'' None)\<rparr>"
  let ?cf = "\<lparr>infer_status = 200, infer_body = Some (verdictData ''CONFIRMED'' None)\<rparr>"
  have ufp: "upperPrediction ?fp = Some ''FALSE POSITIVE''"
    by (simp add: upperPrediction_verdict string_defs)
  have ucf: "upperPrediction ?cf = Some ''CONFIRMED''"
    by (simp add: upperPrediction_verdict string_defs)
  have pfp: "infer_post worldFalsePositiveNoProbability
               (inferData (row ''K00752.01'' ''CANDIDATE'' None) ''K00752.01'') = Inr ?fp"
    unfolding worldFalsePositiveNoProbability_def example_post by (simp add: verdict_def)
  have pcf: "infer_post worldConfirmedNoProbability
               (inferData (row ''K00752.01'' ''CANDIDATE'' None) ''K00752.01'') = Inr ?cf"
    unfolding worldConfirmedNoProbability_def example_post by (simp add: verdict_def)
  have none: "probability (verdictData l None) = None" for l
    by (simp add: verdictData_def)
  have a: "\<exists>r rec. sendCandidateToInferAPI worldFalsePositiveNoProbability [] ''K00752.01''
                 = ((Inr r, 1), [] @ [rec]) \<and>
      outcomeOf r = FalsePositive \<and> koi_disposition rec = Some ''FALSE POSITIVE'' \<and>
      confidence_score rec = Some 1"
    using gateway_absent_probability [of worldFalsePositiveNoProbability "''K00752.01''"
        "row ''K00752.01'' ''CANDIDATE'' None" ?fp "verdictData ''FALSE POSITIVE'' None" "[]"]
      ufp pfp none
    by (simp add: worldFalsePositiveNoProbability_def example_fetch example_insert)
  have b: "\<exists>r rec. sendCandidateToInferAPI worldConfirmedNoProbability [] ''K00752.01''
                 = ((Inr r, 1), [] @ [rec]) \<and>
      outcomeOf r = Confirmed \<and> koi_disposition rec = Some ''CONFIRMED'' \<and>
      confidence_score rec = Some 0"
    using gateway_absent_probability [of worldConfirmedNoProbability "''K00752.01''"
        "row ''K00752.01'' ''CANDIDATE'' None" ?cf "verdictData ''CONFIRMED'' None" "[]"]
      ucf pcf none
    by (simp add: worldConfirmedNoProbability_def example_fetch example_insert)
  show ?thesis using a b none by simp
qed

end
